theory Spec2Isabelle
  imports Complex_Main "HOL-Library.Sublist"
begin

section \<open>The Python side: exceptions, handles, console output\<close>

text \<open>
  Embedding of \<^verbatim>\<open>src/utils/carla_connector.py\<close>. The module is a layer of calls into the
  CARLA client library, so the simulator is part of the model: a state record for what the
  simulator holds (settings, actors, the spectator's pose) and an environment record of
  oracles for everything the simulator, the random generator and the other threads decide.

  Python exceptions fall in two classes the source's handlers tell apart:
  \<^verbatim>\<open>except Exception\<close> catches the subclasses of \<^verbatim>\<open>Exception\<close> (the RuntimeError the
  client library raises, the IndexError of an empty sequence), \<^verbatim>\<open>except KeyboardInterrupt\<close>
  catches the interrupt, which is a \<^verbatim>\<open>BaseException\<close> only.
\<close>

datatype pyexn = RuntimeError string | IndexError | KeyboardInterrupt

fun is_Exception :: "pyexn \<Rightarrow> bool" where
  "is_Exception KeyboardInterrupt = False"
| "is_Exception (RuntimeError m) = True"
| "is_Exception IndexError = True"

text \<open>Python floats are only stored and passed on by this module, never computed with.\<close>

type_synonym pyfloat = real

record transform =
  loc_x :: pyfloat
  loc_y :: pyfloat
  loc_z :: pyfloat
  pitch :: pyfloat
  yaw :: pyfloat
  roll :: pyfloat

record world_settings =
  synchronous_mode :: bool
  fixed_delta_seconds :: "pyfloat option"
  no_rendering_mode :: bool

text \<open>A \<^verbatim>\<open>carla.Client\<close> object; \<^verbatim>\<open>set_timeout\<close> stores the timeout in it.\<close>

record client =
  host :: string
  port :: int
  timeout :: "pyfloat option"

text \<open>A \<^verbatim>\<open>carla.World\<close> handle names the episode it was obtained from.\<close>

datatype world = World nat

text \<open>Actors are referred to by their simulator id.\<close>

type_synonym actor_ref = nat

record actor =
  actor_id :: actor_ref
  type_id :: string
  autopilot :: bool
  parent :: "actor_ref option"
  spawned_at :: transform

text \<open>A \<^verbatim>\<open>threading.Event\<close> handle: an object, so always truthy.\<close>

datatype event = Event

text \<open>The lines the module prints, one constructor per \<^verbatim>\<open>print\<close> of the source.\<close>

datatype console_line =
    SynchronousModeInfo pyfloat
  | ErrorConnecting pyexn
  | ErrorSpawningVehicle pyexn
  | ErrorSpawningVehicles pyexn
  | ErrorSettingAutopilot pyexn
  | CameraFollowInterrupted
  | ErrorSettingSpectator pyexn

section \<open>The simulator\<close>

text \<open>Every call the module makes into the client library, the event object or \<^verbatim>\<open>time\<close>.\<close>

datatype api_call =
    NewClient string int
  | SetTimeout pyfloat
  | GetWorld
  | GetSettings
  | ApplySettings world_settings
  | Tick
  | GetBlueprintLibrary
  | GetMap
  | GetSpawnPoints
  | SpawnActor string transform "actor_ref option"
  | TrySpawnActor string transform
  | GetActors
  | SetAutopilot actor_ref bool
  | GetSpectator
  | GetTransform actor_ref
  | SetTransform actor_ref transform
  | IsSet
  | Sleep pyfloat

text \<open>
  What the module cannot decide, indexed by the number of calls made so far:
  whether the call raises, whether a requested spawn position is occupied, where the
  physics has moved an actor to, whether another thread has set the stop event; and the
  random generator's draws, indexed by the number of draws made so far.
\<close>

record env =
  fault :: "nat \<Rightarrow> pyexn option"
  blocked :: "nat \<Rightarrow> bool"
  pose_at :: "nat \<Rightarrow> actor_ref \<Rightarrow> transform"
  stop_set :: "nat \<Rightarrow> bool"
  rand :: "nat \<Rightarrow> nat"

record sim =
  episode :: nat
  settings :: world_settings
  blueprints :: "string list"
  spawn_points :: "transform list"
  actors :: "actor list"
  next_id :: actor_ref
  spectator :: actor_ref
  spectator_pose :: transform
  trace :: "api_call list"
  draws :: nat
  console :: "console_line list"

section \<open>Sequencing, raising and handling\<close>

type_synonym 'a prog = "sim \<Rightarrow> (pyexn + 'a) \<times> sim"

definition ret :: "'a \<Rightarrow> 'a prog" where
  "ret a s = (Inr a, s)"

definition raise :: "pyexn \<Rightarrow> 'a prog" where
  "raise e s = (Inl e, s)"

definition bind :: "'a prog \<Rightarrow> ('a \<Rightarrow> 'b prog) \<Rightarrow> 'b prog" where
  "bind m f s = (case m s of (Inl e, s') \<Rightarrow> (Inl e, s') | (Inr a, s') \<Rightarrow> f a s')"

text \<open>\<^verbatim>\<open>try: m  except Exception as e: h e\<close>\<close>

definition except_Exception :: "'a prog \<Rightarrow> (pyexn \<Rightarrow> 'a prog) \<Rightarrow> 'a prog" where
  "except_Exception m h s =
     (case m s of
        (Inl e, s') \<Rightarrow> if is_Exception e then h e s' else (Inl e, s')
      | (Inr a, s') \<Rightarrow> (Inr a, s'))"

text \<open>\<^verbatim>\<open>try: m  except KeyboardInterrupt: h\<close>\<close>

definition except_KeyboardInterrupt :: "'a prog \<Rightarrow> 'a prog \<Rightarrow> 'a prog" where
  "except_KeyboardInterrupt m h s =
     (case m s of
        (Inl e, s') \<Rightarrow> if e = KeyboardInterrupt then h s' else (Inl e, s')
      | (Inr a, s') \<Rightarrow> (Inr a, s'))"

definition print :: "console_line \<Rightarrow> unit prog" where
  "print l s = (Inr (), s\<lparr>console := console s @ [l]\<rparr>)"

text \<open>
  A call is recorded in the trace, then either raises what the environment says or has
  its effect. The effect gets the call's index, for the oracles that depend on it.
\<close>

definition api :: "env \<Rightarrow> api_call \<Rightarrow> (nat \<Rightarrow> 'a prog) \<Rightarrow> 'a prog" where
  "api E c eff s =
     (let n = length (trace s); s' = s\<lparr>trace := trace s @ [c]\<rparr>
      in case fault E n of Some e \<Rightarrow> (Inl e, s') | None \<Rightarrow> eff n s')"

section \<open>connect_to_carla\<close>

definition new_client :: "env \<Rightarrow> string \<Rightarrow> int \<Rightarrow> client prog" where
  "new_client E h p = api E (NewClient h p) (\<lambda>n. ret \<lparr>host = h, port = p, timeout = None\<rparr>)"

definition set_timeout :: "env \<Rightarrow> client \<Rightarrow> pyfloat \<Rightarrow> client prog" where
  "set_timeout E c t = api E (SetTimeout t) (\<lambda>n. ret (c\<lparr>timeout := Some t\<rparr>))"

definition get_world :: "env \<Rightarrow> world prog" where
  "get_world E = api E GetWorld (\<lambda>n s. (Inr (World (episode s)), s))"

definition get_settings :: "env \<Rightarrow> world_settings prog" where
  "get_settings E = api E GetSettings (\<lambda>n s. (Inr (settings s), s))"

definition apply_settings :: "env \<Rightarrow> world_settings \<Rightarrow> unit prog" where
  "apply_settings E st = api E (ApplySettings st) (\<lambda>n s. (Inr (), s\<lparr>settings := st\<rparr>))"

definition connect_to_carla ::
  "env \<Rightarrow> string \<Rightarrow> int \<Rightarrow> pyfloat \<Rightarrow> bool \<Rightarrow> pyfloat \<Rightarrow> (client option \<times> world option) prog" where
  "connect_to_carla E h p t synchronous fds =
     except_Exception
       (bind (new_client E h p) (\<lambda>c0.
        bind (set_timeout E c0 t) (\<lambda>c.
        bind (get_world E) (\<lambda>w.
        bind (if synchronous
              then bind (get_settings E) (\<lambda>st.
                   bind (apply_settings E
                           (st\<lparr>synchronous_mode := True, fixed_delta_seconds := Some fds\<rparr>)) (\<lambda>_.
                   print (SynchronousModeInfo fds)))
              else ret ()) (\<lambda>_.
        ret (Some c, Some w))))))
       (\<lambda>e. bind (print (ErrorConnecting e)) (\<lambda>_. ret (None, None)))"

section \<open>Blueprints and wildcard patterns\<close>

text \<open>
  The client library's pattern matching is not part of the repository. It is modelled
  after the CARLA API: \<^verbatim>\<open>BlueprintLibrary.filter\<close> keeps the blueprints whose id or one of
  whose tags matches the wildcard pattern, \<^verbatim>\<open>ActorList.filter\<close> the actors whose
  \<^verbatim>\<open>type_id\<close> matches; a blueprint's tags are the dot-separated components of its id.
  A star stands for any run of characters and a question mark for any one character.
\<close>

fun wildcard_match :: "string \<Rightarrow> string \<Rightarrow> bool" where
  "wildcard_match [] [] = True"
| "wildcard_match [] (c # cs) = False"
| "wildcard_match (p # ps) [] = (p = CHR ''*'' \<and> wildcard_match ps [])"
| "wildcard_match (p # ps) (c # cs) =
     (if p = CHR ''*'' then wildcard_match ps (c # cs) \<or> wildcard_match (p # ps) cs
      else (p = CHR ''?'' \<or> p = c) \<and> wildcard_match ps cs)"

fun tags_of :: "string \<Rightarrow> string list" where
  "tags_of [] = [[]]"
| "tags_of (c # cs) =
     (if c = CHR ''.'' then [] # tags_of cs
      else (case tags_of cs of [] \<Rightarrow> [[c]] | t # ts \<Rightarrow> (c # t) # ts))"

definition bp_matches :: "string \<Rightarrow> string \<Rightarrow> bool" where
  "bp_matches pat b = (wildcard_match pat b \<or> list_ex (wildcard_match pat) (tags_of b))"

definition bp_filter :: "string \<Rightarrow> string list \<Rightarrow> string list" where
  "bp_filter pat lib = filter (bp_matches pat) lib"

definition actor_filter :: "string \<Rightarrow> actor list \<Rightarrow> actor list" where
  "actor_filter pat as = filter (\<lambda>a. wildcard_match pat (type_id a)) as"

text \<open>\<^verbatim>\<open>BlueprintLibrary.find\<close> raises IndexError for an id the library does not hold.\<close>

definition find_blueprint :: "string list \<Rightarrow> string \<Rightarrow> pyexn + string" where
  "find_blueprint lib i = (if i \<in> set lib then Inr i else Inl IndexError)"

text \<open>\<^verbatim>\<open>xs[0]\<close>\<close>

definition item0 :: "'a list \<Rightarrow> pyexn + 'a" where
  "item0 xs = (case xs of [] \<Rightarrow> Inl IndexError | x # _ \<Rightarrow> Inr x)"

definition lift :: "pyexn + 'a \<Rightarrow> 'a prog" where
  "lift r s = (r, s)"

text \<open>
  \<^verbatim>\<open>random.choice(xs)\<close>: IndexError on an empty sequence, else the element at an index
  below the length that the generator draws.
\<close>

definition random_choice :: "env \<Rightarrow> 'a list \<Rightarrow> 'a prog" where
  "random_choice E xs s =
     (if xs = [] then (Inl IndexError, s)
      else (Inr (xs ! (rand E (draws s) mod length xs)), s\<lparr>draws := Suc (draws s)\<rparr>))"

section \<open>Spawning\<close>

definition get_blueprint_library :: "env \<Rightarrow> string list prog" where
  "get_blueprint_library E = api E GetBlueprintLibrary (\<lambda>n s. (Inr (blueprints s), s))"

definition get_map :: "env \<Rightarrow> unit prog" where
  "get_map E = api E GetMap (\<lambda>n. ret ())"

definition get_spawn_points :: "env \<Rightarrow> transform list prog" where
  "get_spawn_points E = api E GetSpawnPoints (\<lambda>n s. (Inr (spawn_points s), s))"

definition add_actor :: "string \<Rightarrow> transform \<Rightarrow> actor_ref option \<Rightarrow> sim \<Rightarrow> sim" where
  "add_actor bp tf par s =
     s\<lparr>actors := actors s @
          [\<lparr>actor_id = next_id s, type_id = bp, autopilot = False, parent = par,
            spawned_at = tf\<rparr>],
       next_id := Suc (next_id s)\<rparr>"

text \<open>The strict spawn raises when the position is occupied, the lenient one returns None.\<close>

definition spawn_actor :: "env \<Rightarrow> string \<Rightarrow> transform \<Rightarrow> actor_ref option \<Rightarrow> actor_ref prog" where
  "spawn_actor E bp tf par =
     api E (SpawnActor bp tf par) (\<lambda>n s.
       if blocked E n then (Inl (RuntimeError ''Spawn failed because of collision''), s)
       else (Inr (next_id s), add_actor bp tf par s))"

definition try_spawn_actor :: "env \<Rightarrow> string \<Rightarrow> transform \<Rightarrow> actor_ref option prog" where
  "try_spawn_actor E bp tf =
     api E (TrySpawnActor bp tf) (\<lambda>n s.
       if blocked E n then (Inr None, s)
       else (Inr (Some (next_id s)), add_actor bp tf None s))"


text \<open>The list comprehension \<^verbatim>\<open>[blueprint_library.filter(t)[0] for t in vehicle_types]\<close>.\<close>

fun first_matches :: "string list \<Rightarrow> string list \<Rightarrow> pyexn + string list" where
  "first_matches lib [] = Inr []"
| "first_matches lib (f # fs) =
     (case item0 (bp_filter f lib) of
        Inl e \<Rightarrow> Inl e
      | Inr b \<Rightarrow> (case first_matches lib fs of Inl e \<Rightarrow> Inl e | Inr bs \<Rightarrow> Inr (b # bs)))"

definition candidates :: "string list \<Rightarrow> string list option \<Rightarrow> pyexn + string list" where
  "candidates lib vehicle_types =
     (case vehicle_types of
        Some fs \<Rightarrow> if fs \<noteq> [] then first_matches lib fs else Inr (bp_filter ''*vehicle*'' lib)
      | None \<Rightarrow> Inr (bp_filter ''*vehicle*'' lib))"

text \<open>The body of the \<^verbatim>\<open>for\<close> loop with its own handler, and the loop over \<^verbatim>\<open>range\<close>.\<close>

definition spawn_attempt :: "env \<Rightarrow> string list \<Rightarrow> transform list \<Rightarrow> unit prog" where
  "spawn_attempt E bps pts =
     except_Exception
       (bind (random_choice E bps) (\<lambda>bp.
        bind (random_choice E pts) (\<lambda>pt.
        bind (try_spawn_actor E bp pt) (\<lambda>_.
        ret ()))))
       (\<lambda>e. print (ErrorSpawningVehicle e))"

fun spawn_loop :: "nat \<Rightarrow> env \<Rightarrow> string list \<Rightarrow> transform list \<Rightarrow> unit prog" where
  "spawn_loop 0 E bps pts = ret ()"
| "spawn_loop (Suc k) E bps pts = bind (spawn_attempt E bps pts) (\<lambda>_. spawn_loop k E bps pts)"

definition spawn_vehicles :: "env \<Rightarrow> int \<Rightarrow> string list option \<Rightarrow> unit prog" where
  "spawn_vehicles E num_vehicles vehicle_types =
     except_Exception
       (bind (get_blueprint_library E) (\<lambda>lib.
        bind (lift (candidates lib vehicle_types)) (\<lambda>bps.
        bind (get_map E) (\<lambda>_.
        bind (get_spawn_points E) (\<lambda>pts.
        spawn_loop (nat num_vehicles) E bps pts)))))
       (\<lambda>e. print (ErrorSpawningVehicles e))"

section \<open>set_autopilot\<close>

definition get_actors :: "env \<Rightarrow> actor list prog" where
  "get_actors E = api E GetActors (\<lambda>n s. (Inr (actors s), s))"

definition mark_autopilot :: "actor_ref \<Rightarrow> bool \<Rightarrow> actor list \<Rightarrow> actor list" where
  "mark_autopilot a enable as =
     map (\<lambda>x. if actor_id x = a then x\<lparr>autopilot := enable\<rparr> else x) as"

definition actor_set_autopilot :: "env \<Rightarrow> actor_ref \<Rightarrow> bool \<Rightarrow> unit prog" where
  "actor_set_autopilot E a enable =
     api E (SetAutopilot a enable) (\<lambda>n s.
       (Inr (), s\<lparr>actors := mark_autopilot a enable (actors s)\<rparr>))"

fun autopilot_loop :: "env \<Rightarrow> bool \<Rightarrow> actor list \<Rightarrow> unit prog" where
  "autopilot_loop E enable [] = ret ()"
| "autopilot_loop E enable (v # vs) =
     bind (actor_set_autopilot E (actor_id v) enable) (\<lambda>_. autopilot_loop E enable vs)"

definition set_autopilot :: "env \<Rightarrow> bool \<Rightarrow> unit prog" where
  "set_autopilot E enable =
     except_Exception
       (bind (get_actors E) (\<lambda>as. autopilot_loop E enable (actor_filter ''*vehicle*'' as)))
       (\<lambda>e. print (ErrorSettingAutopilot e))"

section \<open>follow_vehicle\<close>

definition get_spectator :: "env \<Rightarrow> actor_ref prog" where
  "get_spectator E = api E GetSpectator (\<lambda>n s. (Inr (spectator s), s))"

definition get_transform :: "env \<Rightarrow> actor_ref \<Rightarrow> transform prog" where
  "get_transform E a = api E (GetTransform a) (\<lambda>n s. (Inr (pose_at E n a), s))"

definition set_transform :: "env \<Rightarrow> actor_ref \<Rightarrow> transform \<Rightarrow> unit prog" where
  "set_transform E a tf =
     api E (SetTransform a tf) (\<lambda>n s.
       (Inr (), if a = spectator s then s\<lparr>spectator_pose := tf\<rparr> else s))"

definition is_set :: "env \<Rightarrow> bool prog" where
  "is_set E = api E IsSet (\<lambda>n s. (Inr (stop_set E n), s))"

definition sleep :: "env \<Rightarrow> pyfloat \<Rightarrow> unit prog" where
  "sleep E d = api E (Sleep d) (\<lambda>n. ret ())"

definition camera_transform :: transform where
  "camera_transform =
     \<lparr>loc_x = - 4, loc_y = 0, loc_z = 4, pitch = - 25, yaw = 0, roll = 0\<rparr>"

definition poll_interval :: pyfloat where
  "poll_interval = 1 / 100"

text \<open>The lines before the \<^verbatim>\<open>try\<close>: no handler covers them.\<close>

definition follow_setup :: "env \<Rightarrow> actor_ref \<Rightarrow> (actor_ref \<times> actor_ref) prog" where
  "follow_setup E vehicle =
     bind (get_spectator E) (\<lambda>sp.
     bind (get_blueprint_library E) (\<lambda>lib.
     bind (lift (find_blueprint lib ''sensor.camera.rgb'')) (\<lambda>camera_bp.
     bind (spawn_actor E camera_bp camera_transform (Some vehicle)) (\<lambda>camera.
     bind (get_transform E camera) (\<lambda>tf.
     bind (set_transform E sp tf) (\<lambda>_.
     ret (sp, camera)))))))"

datatype flow = Break | Continue

text \<open>
  One pass through the body of \<^verbatim>\<open>while True\<close>, inside the handler for the interrupt.
  \<^verbatim>\<open>stop_event and stop_event.is_set()\<close> calls \<^verbatim>\<open>is_set\<close> only when an event was passed.
\<close>

definition follow_iteration :: "env \<Rightarrow> actor_ref \<Rightarrow> actor_ref \<Rightarrow> event option \<Rightarrow> flow prog" where
  "follow_iteration E sp camera stop_event =
     except_KeyboardInterrupt
       (bind (case stop_event of None \<Rightarrow> ret False | Some ev \<Rightarrow> is_set E) (\<lambda>stop.
        if stop then ret Break
        else bind (get_transform E camera) (\<lambda>tf.
             bind (set_transform E sp tf) (\<lambda>_.
             bind (sleep E poll_interval) (\<lambda>_.
             ret Continue)))))
       (bind (print CameraFollowInterrupted) (\<lambda>_. ret Break))"

text \<open>
  The loop has no bound of its own: the model runs it on fuel and answers None when the
  fuel is used up with the loop still going.
\<close>

fun follow_loop ::
  "nat \<Rightarrow> env \<Rightarrow> actor_ref \<Rightarrow> actor_ref \<Rightarrow> event option \<Rightarrow> sim \<Rightarrow> ((pyexn + unit) \<times> sim) option" where
  "follow_loop 0 E sp camera stop_event s = None"
| "follow_loop (Suc k) E sp camera stop_event s =
     (case follow_iteration E sp camera stop_event s of
        (Inl e, s') \<Rightarrow> Some (Inl e, s')
      | (Inr Break, s') \<Rightarrow> Some (Inr (), s')
      | (Inr Continue, s') \<Rightarrow> follow_loop k E sp camera stop_event s')"

definition follow_vehicle ::
  "nat \<Rightarrow> env \<Rightarrow> actor_ref \<Rightarrow> event option \<Rightarrow> sim \<Rightarrow> ((pyexn + unit) \<times> sim) option" where
  "follow_vehicle fuel E vehicle stop_event s =
     (case follow_setup E vehicle s of
        (Inl e, s') \<Rightarrow> Some (Inl e, s')
      | (Inr (sp, camera), s') \<Rightarrow>
          (case follow_loop fuel E sp camera stop_event s' of
             None \<Rightarrow> None
           | Some r \<Rightarrow> Some (except_Exception (\<lambda>_. r) (\<lambda>e. print (ErrorSettingSpectator e)) (snd r))))"

section \<open>Auxiliary notions for the statements\<close>

text \<open>No call with an index from \<open>a\<close> up to, not including, \<open>b\<close> raises.\<close>

definition quiet_between :: "env \<Rightarrow> nat \<Rightarrow> nat \<Rightarrow> bool" where
  "quiet_between E a b = (\<forall>n \<in> {a..<b}. fault E n = None)"

text \<open>What the handler of \<^verbatim>\<open>connect_to_carla\<close> makes of an exception raised in its body.\<close>

definition connect_failed ::
  "pyexn \<Rightarrow> sim \<Rightarrow> (pyexn + client option \<times> world option) \<times> sim" where
  "connect_failed e s =
     (if is_Exception e
      then (Inr (None, None), s\<lparr>console := console s @ [ErrorConnecting e]\<rparr>)
      else (Inl e, s))"


text \<open>The state one pass through the loop of \<^verbatim>\<open>spawn_vehicles\<close> leaves.\<close>

definition after_attempt :: "env \<Rightarrow> string list \<Rightarrow> transform list \<Rightarrow> sim \<Rightarrow> sim" where
  "after_attempt E bps pts s = snd (spawn_attempt E bps pts s)"

text \<open>No call is cut short by an interrupt.\<close>

definition no_interrupt :: "env \<Rightarrow> bool" where
  "no_interrupt E = (\<forall>n. fault E n \<noteq> Some KeyboardInterrupt)"

section \<open>Example inputs\<close>

definition quiet :: env where
  "quiet = \<lparr>fault = (\<lambda>n. None), blocked = (\<lambda>n. False),
            pose_at = (\<lambda>n a. camera_transform\<lparr>loc_x := real n\<rparr>),
            stop_set = (\<lambda>n. False), rand = (\<lambda>n. n)\<rparr>"

text \<open>The third call made times out.\<close>

definition unreachable :: env where
  "unreachable =
     quiet\<lparr>fault := (\<lambda>n. if n = 2 then Some (RuntimeError ''time-out'') else None)\<rparr>"

text \<open>The fifth call made times out, and the sixth finds its position occupied.\<close>

definition flaky :: env where
  "flaky =
     quiet\<lparr>fault := (\<lambda>n. if n = 4 then Some (RuntimeError ''time-out'') else None),
           blocked := (\<lambda>n. n = 5)\<rparr>"

text \<open>The stop event is set from the fourteenth call on.\<close>

definition halting :: env where
  "halting = quiet\<lparr>stop_set := (\<lambda>n. 13 \<le> n)\<rparr>"



definition origin :: transform where
  "origin = \<lparr>loc_x = 0, loc_y = 0, loc_z = 0, pitch = 0, yaw = 0, roll = 0\<rparr>"

definition town :: sim where
  "town =
     \<lparr>episode = 1,
      settings = \<lparr>synchronous_mode = False, fixed_delta_seconds = None, no_rendering_mode = False\<rparr>,
      blueprints = [''vehicle.tesla.model3'', ''sensor.camera.rgb'', ''walker.pedestrian.0001''],
      spawn_points = [origin, origin\<lparr>loc_x := 10\<rparr>],
      actors = [\<lparr>actor_id = 1, type_id = ''spectator'', autopilot = False, parent = None,
                 spawned_at = origin\<rparr>,
                \<lparr>actor_id = 2, type_id = ''vehicle.tesla.model3'', autopilot = False,
                 parent = None, spawned_at = origin\<rparr>,
                \<lparr>actor_id = 3, type_id = ''traffic.traffic_light'', autopilot = False,
                 parent = None, spawned_at = origin\<rparr>,
                \<lparr>actor_id = 4, type_id = ''vehicle.audi.tt'', autopilot = False,
                 parent = None, spawned_at = origin\<lparr>loc_x := 10\<rparr>\<rparr>],
      next_id = 5,
      spectator = 1,
      spectator_pose = origin,
      trace = [],
      draws = 0,
      console = []\<rparr>"

text \<open>The town with a map that registers no spawn point.\<close>

definition empty_map :: sim where
  "empty_map = town\<lparr>spawn_points := []\<rparr>"

section \<open>Stepping through calls\<close>

lemma api_ok:
  "fault E (length (trace s)) = None \<Longrightarrow>
   api E c eff s = eff (length (trace s)) (s\<lparr>trace := trace s @ [c]\<rparr>)"
  by (simp add: api_def Let_def)

lemma api_fault:
  "fault E (length (trace s)) = Some e \<Longrightarrow>
   api E c eff s = (Inl e, s\<lparr>trace := trace s @ [c]\<rparr>)"
  by (simp add: api_def Let_def)

lemma is_Exception_iff: "is_Exception e \<longleftrightarrow> e \<noteq> KeyboardInterrupt"
  by (cases e) simp_all

lemmas prog_defs = ret_def raise_def bind_def lift_def except_Exception_def
  except_KeyboardInterrupt_def print_def

lemmas connect_defs = connect_to_carla_def new_client_def set_timeout_def get_world_def
  get_settings_def apply_settings_def

lemma quiet_between_empty [simp]: "quiet_between E a a"
  by (simp add: quiet_between_def)

lemma quiet_between_Suc:
  "a \<le> b \<Longrightarrow> quiet_between E a (Suc b) \<longleftrightarrow> quiet_between E a b \<and> fault E b = None"
  by (auto simp: quiet_between_def less_Suc_eq)

section \<open>Runs of connect_to_carla\<close>


lemma connect_ok_sync:
  assumes "fault E (length (trace s)) = None"
    and "fault E (Suc (length (trace s))) = None"
    and "fault E (Suc (Suc (length (trace s)))) = None"
    and "fault E (Suc (Suc (Suc (length (trace s))))) = None"
    and "fault E (Suc (Suc (Suc (Suc (length (trace s)))))) = None"
  shows "connect_to_carla E h p t True fds s =
    (Inr (Some \<lparr>host = h, port = p, timeout = Some t\<rparr>, Some (World (episode s))),
     s\<lparr>trace := trace s @ [NewClient h p, SetTimeout t, GetWorld, GetSettings,
                          ApplySettings ((settings s)\<lparr>synchronous_mode := True,
                                                     fixed_delta_seconds := Some fds\<rparr>)],
        settings := (settings s)\<lparr>synchronous_mode := True, fixed_delta_seconds := Some fds\<rparr>,
        console := console s @ [SynchronousModeInfo fds]\<rparr>)"
  using assms by (simp add: connect_defs prog_defs api_ok)

lemma connect_ok_async:
  assumes "fault E (length (trace s)) = None"
    and "fault E (Suc (length (trace s))) = None"
    and "fault E (Suc (Suc (length (trace s)))) = None"
  shows "connect_to_carla E h p t False fds s =
    (Inr (Some \<lparr>host = h, port = p, timeout = Some t\<rparr>, Some (World (episode s))),
     s\<lparr>trace := trace s @ [NewClient h p, SetTimeout t, GetWorld]\<rparr>)"
  using assms by (simp add: connect_defs prog_defs api_ok)

lemma connect_fault0:
  assumes "fault E (length (trace s)) = Some e"
  shows "connect_to_carla E h p t sy fds s =
    connect_failed e (s\<lparr>trace := trace s @ [NewClient h p]\<rparr>)"
  using assms by (simp add: connect_defs prog_defs api_fault connect_failed_def)

lemma connect_fault1:
  assumes "fault E (length (trace s)) = None"
    and "fault E (Suc (length (trace s))) = Some e"
  shows "connect_to_carla E h p t sy fds s =
    connect_failed e (s\<lparr>trace := trace s @ [NewClient h p, SetTimeout t]\<rparr>)"
  using assms by (simp add: connect_defs prog_defs api_fault api_ok connect_failed_def)

lemma connect_fault2:
  assumes "fault E (length (trace s)) = None"
    and "fault E (Suc (length (trace s))) = None"
    and "fault E (Suc (Suc (length (trace s)))) = Some e"
  shows "connect_to_carla E h p t sy fds s =
    connect_failed e (s\<lparr>trace := trace s @ [NewClient h p, SetTimeout t, GetWorld]\<rparr>)"
  using assms by (simp add: connect_defs prog_defs api_fault api_ok connect_failed_def)

lemma connect_fault3:
  assumes "fault E (length (trace s)) = None"
    and "fault E (Suc (length (trace s))) = None"
    and "fault E (Suc (Suc (length (trace s)))) = None"
    and "fault E (Suc (Suc (Suc (length (trace s))))) = Some e"
  shows "connect_to_carla E h p t True fds s =
    connect_failed e (s\<lparr>trace := trace s @ [NewClient h p, SetTimeout t, GetWorld, GetSettings]\<rparr>)"
  using assms by (simp add: connect_defs prog_defs api_fault api_ok connect_failed_def)

lemma connect_fault4:
  assumes "fault E (length (trace s)) = None"
    and "fault E (Suc (length (trace s))) = None"
    and "fault E (Suc (Suc (length (trace s)))) = None"
    and "fault E (Suc (Suc (Suc (length (trace s))))) = None"
    and "fault E (Suc (Suc (Suc (Suc (length (trace s)))))) = Some e"
  shows "connect_to_carla E h p t True fds s =
    connect_failed e (s\<lparr>trace := trace s @ [NewClient h p, SetTimeout t, GetWorld, GetSettings,
       ApplySettings ((settings s)\<lparr>synchronous_mode := True, fixed_delta_seconds := Some fds\<rparr>)]\<rparr>)"
  using assms by (simp add: connect_defs prog_defs api_fault api_ok connect_failed_def)

section \<open>Claims about connect_to_carla\<close>

text \<open>
  C5. Whatever the simulator does, \<^verbatim>\<open>connect_to_carla\<close> ends in one of two ways. Either
  every call it made returned, and it returns a client and a world, both present. Or one
  call raised and it was the last one made: then the settings are untouched and, for any
  exception of class \<^verbatim>\<open>Exception\<close> (refused connection, time-out, version mismatch), the
  result is the pair (None, None) with exactly one line printed, naming the cause. A pair
  with one handle present and one absent never comes back, and the only thing that can
  leave the function as an exception is an interrupt, which is not an \<^verbatim>\<open>Exception\<close>.
\<close>

theorem connect_to_carla_failure_marker:
  assumes run: "connect_to_carla E h p t sy fds s = (r, s')"
  shows "(\<exists>c w. r = Inr (Some c, Some w) \<and>
            quiet_between E (length (trace s)) (length (trace s')))
       \<or> (\<exists>e n. fault E n = Some e \<and> Suc n = length (trace s') \<and>
            quiet_between E (length (trace s)) n \<and>
            settings s' = settings s \<and>
            (if is_Exception e
             then r = Inr (None, None) \<and> console s' = console s @ [ErrorConnecting e]
             else r = Inl e \<and> console s' = console s))"
    (is "?ok \<or> ?failed")
proof -
  let ?n = "length (trace s)"
  have r: "r = fst (connect_to_carla E h p t sy fds s)"
    and s': "s' = snd (connect_to_carla E h p t sy fds s)"
    using run by simp_all
  show ?thesis
  proof (cases "fault E ?n")
    case (Some e)
    have ?failed unfolding r s'
      by (intro exI[of _ e] exI[of _ ?n])
         (simp add: connect_fault0 [OF Some] connect_failed_def Some)
    then show ?thesis ..
  next
    case f0: None
    show ?thesis
    proof (cases "fault E (Suc ?n)")
      case (Some e)
      have ?failed unfolding r s'
        by (intro exI[of _ e] exI[of _ "Suc ?n"])
           (simp add: connect_fault1 [OF f0 Some] connect_failed_def Some f0 quiet_between_Suc)
      then show ?thesis ..
    next
      case f1: None
      show ?thesis
      proof (cases "fault E (Suc (Suc ?n))")
        case (Some e)
        have ?failed unfolding r s'
          by (intro exI[of _ e] exI[of _ "Suc (Suc ?n)"])
             (simp add: connect_fault2 [OF f0 f1 Some] connect_failed_def Some f0 f1
                quiet_between_Suc)
        then show ?thesis ..
      next
        case f2: None
        show ?thesis
        proof (cases sy)
          case False
          have ?ok unfolding r s' using False
            by (simp add: connect_ok_async [OF f0 f1 f2] f0 f1 f2 quiet_between_Suc)
          then show ?thesis ..
        next
          case True
          show ?thesis
          proof (cases "fault E (Suc (Suc (Suc ?n)))")
            case (Some e)
            have ?failed unfolding r s' using True
              by (intro exI[of _ e] exI[of _ "Suc (Suc (Suc ?n))"])
                 (simp add: connect_fault3 [OF f0 f1 f2 Some] connect_failed_def Some f0 f1 f2
                    quiet_between_Suc)
            then show ?thesis ..
          next
            case f3: None
            show ?thesis
            proof (cases "fault E (Suc (Suc (Suc (Suc ?n))))")
              case (Some e)
              have ?failed unfolding r s' using True
                by (intro exI[of _ e] exI[of _ "Suc (Suc (Suc (Suc ?n)))"])
                   (simp add: connect_fault4 [OF f0 f1 f2 f3 Some] connect_failed_def Some
                      f0 f1 f2 f3 quiet_between_Suc)
              then show ?thesis ..
            next
              case f4: None
              have ?ok unfolding r s' using True
                by (simp add: connect_ok_sync [OF f0 f1 f2 f3 f4] f0 f1 f2 f3 f4
                      quiet_between_Suc)
              then show ?thesis ..
            qed
          qed
        qed
      qed
    qed
  qed
qed

theorem connect_to_carla_failure_marker_witness:
  "connect_to_carla unreachable ''localhost'' 2000 10 False (1 / 20) town =
     (Inr (None, None),
      town\<lparr>trace := [NewClient ''localhost'' 2000, SetTimeout 10, GetWorld],
           console := [ErrorConnecting (RuntimeError ''time-out'')]\<rparr>)
   \<and> (\<exists>e n. fault unreachable n = Some e \<and> is_Exception e \<and> n = 2 \<and>
            e = RuntimeError ''time-out'')"
proof -
  have run: "connect_to_carla unreachable ''localhost'' 2000 10 False (1 / 20) town =
     (Inr (None, None),
      town\<lparr>trace := [NewClient ''localhost'' 2000, SetTimeout 10, GetWorld],
           console := [ErrorConnecting (RuntimeError ''time-out'')]\<rparr>)"
    by (simp add: connect_fault2 connect_failed_def unreachable_def quiet_def town_def)
  from connect_to_carla_failure_marker [OF run]
  have "\<exists>e n. fault unreachable n = Some e \<and> is_Exception e \<and> n = 2 \<and>
            e = RuntimeError ''time-out''"
    by (auto simp: unreachable_def quiet_def town_def split: if_splits)
  with run show ?thesis by (rule conjI)
qed

text \<open>
  C2. A call with \<^verbatim>\<open>synchronous=True\<close> and step \<open>fds\<close> that returns the two handles
  leaves the world's settings with synchronous mode on and the fixed step exactly \<open>fds\<close>,
  the other settings as they were. The calls it made are the five listed: the settings
  are applied, and the simulation is not ticked.
\<close>

theorem connect_to_carla_synchronous:
  assumes run: "connect_to_carla E h p t True fds s = (Inr (Some c, Some w), s')"
  shows "synchronous_mode (settings s') \<and>
         fixed_delta_seconds (settings s') = Some fds \<and>
         no_rendering_mode (settings s') = no_rendering_mode (settings s) \<and>
         trace s' = trace s @ [NewClient h p, SetTimeout t, GetWorld, GetSettings,
                               ApplySettings (settings s')] \<and>
         Tick \<notin> set (drop (length (trace s)) (trace s'))"
proof -
  let ?n = "length (trace s)"
  have s': "s' = snd (connect_to_carla E h p t True fds s)"
    using run by simp
  show ?thesis
  proof (cases "fault E ?n")
    case (Some e)
    with run show ?thesis
      by (simp add: connect_fault0 [OF Some] connect_failed_def split: if_splits)
  next
    case f0: None
    show ?thesis
    proof (cases "fault E (Suc ?n)")
      case (Some e)
      with run show ?thesis
        by (simp add: connect_fault1 [OF f0 Some] connect_failed_def split: if_splits)
    next
      case f1: None
      show ?thesis
      proof (cases "fault E (Suc (Suc ?n))")
        case (Some e)
        with run show ?thesis
          by (simp add: connect_fault2 [OF f0 f1 Some] connect_failed_def split: if_splits)
      next
        case f2: None
        show ?thesis
        proof (cases "fault E (Suc (Suc (Suc ?n)))")
          case (Some e)
          with run show ?thesis
            by (simp add: connect_fault3 [OF f0 f1 f2 Some] connect_failed_def split: if_splits)
        next
          case f3: None
          show ?thesis
          proof (cases "fault E (Suc (Suc (Suc (Suc ?n))))")
            case (Some e)
            with run show ?thesis
              by (simp add: connect_fault4 [OF f0 f1 f2 f3 Some] connect_failed_def
                    split: if_splits)
          next
            case f4: None
            show ?thesis unfolding s'
              by (simp add: connect_ok_sync [OF f0 f1 f2 f3 f4])
          qed
        qed
      qed
    qed
  qed
qed

theorem connect_to_carla_synchronous_witness:
  "connect_to_carla quiet ''localhost'' 2000 10 True (1 / 20) town =
     (Inr (Some \<lparr>host = ''localhost'', port = 2000, timeout = Some 10\<rparr>, Some (World 1)),
      town\<lparr>trace := [NewClient ''localhost'' 2000, SetTimeout 10, GetWorld, GetSettings,
                      ApplySettings \<lparr>synchronous_mode = True, fixed_delta_seconds = Some (1 / 20),
                                     no_rendering_mode = False\<rparr>],
           settings := \<lparr>synchronous_mode = True, fixed_delta_seconds = Some (1 / 20),
                        no_rendering_mode = False\<rparr>,
           console := [SynchronousModeInfo (1 / 20)]\<rparr>)
   \<and> synchronous_mode (settings (snd (connect_to_carla quiet ''localhost'' 2000 10 True (1 / 20) town)))
   \<and> fixed_delta_seconds (settings (snd (connect_to_carla quiet ''localhost'' 2000 10 True (1 / 20) town)))
       = Some (1 / 20)"
proof -
  have run: "connect_to_carla quiet ''localhost'' 2000 10 True (1 / 20) town =
     (Inr (Some \<lparr>host = ''localhost'', port = 2000, timeout = Some 10\<rparr>, Some (World 1)),
      town\<lparr>trace := [NewClient ''localhost'' 2000, SetTimeout 10, GetWorld, GetSettings,
                      ApplySettings \<lparr>synchronous_mode = True, fixed_delta_seconds = Some (1 / 20),
                                     no_rendering_mode = False\<rparr>],
           settings := \<lparr>synchronous_mode = True, fixed_delta_seconds = Some (1 / 20),
                        no_rendering_mode = False\<rparr>,
           console := [SynchronousModeInfo (1 / 20)]\<rparr>)"
    by (simp add: connect_ok_sync quiet_def town_def)
  from connect_to_carla_synchronous [OF run] run show ?thesis
    by simp
qed

section \<open>Runs of spawn_vehicle\<close>


lemma except_Exception_no_escape:
  assumes h: "\<And>e s. is_Exception e \<Longrightarrow> \<exists>a s'. h e s = (Inr a, s')"
    and run: "except_Exception m h s = (Inl e, s')"
  shows "\<not> is_Exception e"
proof
  assume e: "is_Exception e"
  obtain r s1 where m: "m s = (r, s1)" by (cases "m s")
  show False
  proof (cases r)
    case (Inl e1)
    show ?thesis
    proof (cases "is_Exception e1")
      case True
      from h [OF True, of s1] obtain a s2 where "h e1 s1 = (Inr a, s2)" by blast
      with run m Inl True show False by (simp add: except_Exception_def)
    next
      case False
      with run m Inl e show False by (simp add: except_Exception_def)
    qed
  next
    case (Inr a)
    with run m show False by (simp add: except_Exception_def)
  qed
qed






lemma bike_no_match: "bp_filter ''bike'' (blueprints town) = []"
  by (simp add: town_def bp_filter_def bp_matches_def)

lemma model3_match: "bp_filter ''model3'' (blueprints town) = [''vehicle.tesla.model3'']"
  by (simp add: town_def bp_filter_def bp_matches_def)


section \<open>Runs of spawn_vehicles\<close>

lemmas spawn_many_defs = spawn_vehicles_def get_blueprint_library_def get_map_def
  get_spawn_points_def

lemma first_matches_no_match:
  "\<exists>f \<in> set fs. bp_filter f lib = [] \<Longrightarrow> first_matches lib fs = Inl IndexError"
proof (induction fs)
  case Nil
  then show ?case by simp
next
  case (Cons f fs)
  show ?case
  proof (cases "bp_filter f lib")
    case Nil
    then show ?thesis by (simp add: item0_def)
  next
    case (Cons b bs)
    with Cons.prems have "\<exists>g \<in> set fs. bp_filter g lib = []" by auto
    with Cons.IH have "first_matches lib fs = Inl IndexError" by simp
    with Cons show ?thesis by (simp add: item0_def)
  qed
qed

lemma spawn_vehicles_unresolved:
  assumes "candidates (blueprints s) vts = Inl e" and "is_Exception e"
    and "fault E (length (trace s)) = None"
  shows "spawn_vehicles E n vts s =
     (Inr (), s\<lparr>trace := trace s @ [GetBlueprintLibrary],
                console := console s @ [ErrorSpawningVehicles e]\<rparr>)"
  using assms by (simp add: spawn_many_defs prog_defs api_ok)

lemma spawn_vehicles_resolved:
  assumes "candidates (blueprints s) vts = Inr bps"
    and "fault E (length (trace s)) = None"
    and "fault E (Suc (length (trace s))) = None"
    and "fault E (Suc (Suc (length (trace s)))) = None"
  shows "spawn_vehicles E n vts s =
     except_Exception (spawn_loop (nat n) E bps (spawn_points s))
       (\<lambda>e. print (ErrorSpawningVehicles e))
       (s\<lparr>trace := trace s @ [GetBlueprintLibrary, GetMap, GetSpawnPoints]\<rparr>)"
  using assms by (simp add: spawn_many_defs prog_defs api_ok)

lemma spawn_attempt_run:
  "spawn_attempt E bps pts s =
     (if bps = [] then (Inr (), s\<lparr>console := console s @ [ErrorSpawningVehicle IndexError]\<rparr>)
      else if pts = []
      then (Inr (), s\<lparr>draws := Suc (draws s),
                       console := console s @ [ErrorSpawningVehicle IndexError]\<rparr>)
      else
        let bp = bps ! (rand E (draws s) mod length bps);
            pt = pts ! (rand E (Suc (draws s)) mod length pts);
            s1 = s\<lparr>draws := Suc (Suc (draws s)), trace := trace s @ [TrySpawnActor bp pt]\<rparr>
        in case fault E (length (trace s)) of
             Some e \<Rightarrow>
               if is_Exception e
               then (Inr (), s1\<lparr>console := console s @ [ErrorSpawningVehicle e]\<rparr>)
               else (Inl e, s1)
           | None \<Rightarrow>
               if blocked E (length (trace s)) then (Inr (), s1)
               else (Inr (), add_actor bp pt None s1))"
  by (simp add: spawn_attempt_def random_choice_def try_spawn_actor_def api_def prog_defs
        Let_def add_actor_def split: option.splits)

lemma no_interrupt_Exception:
  "no_interrupt E \<Longrightarrow> fault E n = Some e \<Longrightarrow> is_Exception e"
  by (auto simp: no_interrupt_def is_Exception_iff)

lemma spawn_attempt_returns:
  assumes "no_interrupt E"
  shows "spawn_attempt E bps pts s = (Inr (), after_attempt E bps pts s)"
proof -
  have "fst (spawn_attempt E bps pts s) = Inr ()"
    using no_interrupt_Exception [OF assms, of "length (trace s)"]
    by (simp add: spawn_attempt_run Let_def split: option.splits)
  then show ?thesis
    by (simp add: after_attempt_def prod_eq_iff)
qed

lemma spawn_loop_run:
  assumes "no_interrupt E"
  shows "spawn_loop k E bps pts s = (Inr (), (after_attempt E bps pts ^^ k) s)"
proof (induction k arbitrary: s)
  case 0
  show ?case by (simp add: ret_def)
next
  case (Suc k)
  show ?case
    by (simp add: bind_def spawn_attempt_returns [OF assms] Suc.IH funpow_swap1)
qed


text \<open>
  C6 as stated fails: with the filters model3 and bike, only the first of which matches a
  blueprint, a call for three vehicles makes one call, for the blueprint library, prints
  one line from the outer handler, and requests no spawn.
\<close>

theorem spawn_vehicles_no_match_counterexample:
  "spawn_vehicles quiet 3 (Some [''model3'', ''bike'']) town =
     (Inr (), town\<lparr>trace := [GetBlueprintLibrary],
                   console := [ErrorSpawningVehicles IndexError]\<rparr>)"
proof -
  have "candidates (blueprints town) (Some [''model3'', ''bike'']) = Inl IndexError"
    using first_matches_no_match [of "[''model3'', ''bike'']" "blueprints town"] bike_no_match
    by (simp add: candidates_def)
  then show ?thesis
    by (simp add: spawn_vehicles_unresolved quiet_def) (simp add: town_def)
qed

text \<open>
  C6, amended. When one of the listed type filters matches no blueprint, the candidates
  are not resolved: the IndexError of the empty match is raised before the loop, caught by
  the outer handler and printed once, and the call returns without any spawn attempt.
\<close>

theorem spawn_vehicles_no_match_aborts:
  assumes "\<exists>f \<in> set fs. bp_filter f (blueprints s) = []"
    and "fault E (length (trace s)) = None"
  shows "spawn_vehicles E n (Some fs) s =
     (Inr (), s\<lparr>trace := trace s @ [GetBlueprintLibrary],
                console := console s @ [ErrorSpawningVehicles IndexError]\<rparr>)"
proof -
  from assms(1) have "fs \<noteq> []" by auto
  with first_matches_no_match [OF assms(1)]
  have "candidates (blueprints s) (Some fs) = Inl IndexError"
    by (simp add: candidates_def)
  then show ?thesis
    by (simp add: spawn_vehicles_unresolved assms(2))
qed

theorem spawn_vehicles_no_match_aborts_witness:
  "(\<exists>f \<in> set [''bike'']. bp_filter f (blueprints town) = []) \<and>
   fault quiet (length (trace town)) = None \<and>
   spawn_vehicles quiet 2 (Some [''bike'']) town =
     (Inr (), town\<lparr>trace := [GetBlueprintLibrary],
                   console := [ErrorSpawningVehicles IndexError]\<rparr>)"
proof -
  have a: "\<exists>f \<in> set [''bike'']. bp_filter f (blueprints town) = []"
    by (simp add: bike_no_match)
  have b: "fault quiet (length (trace town)) = None"
    by (simp add: quiet_def)
  from spawn_vehicles_no_match_aborts [OF a b, of 2]
  have "spawn_vehicles quiet 2 (Some [''bike'']) town =
     (Inr (), town\<lparr>trace := [GetBlueprintLibrary],
                   console := [ErrorSpawningVehicles IndexError]\<rparr>)"
    by (simp add: town_def)
  with a b show ?thesis by blast
qed

section \<open>Runs of follow_vehicle\<close>

lemmas follow_defs = follow_vehicle_def follow_setup_def get_spectator_def get_transform_def
  set_transform_def is_set_def sleep_def find_blueprint_def get_blueprint_library_def spawn_actor_def

text \<open>
  C3 fails on \<^verbatim>\<open>follow_vehicle\<close>: the lines before its \<^verbatim>\<open>try\<close> are covered by no handler.
  When the request to spawn the camera, the third call, times out, the RuntimeError leaves
  the function, for any fuel and with nothing printed.
\<close>

theorem follow_vehicle_setup_escapes:
  "follow_vehicle fuel unreachable 2 (Some Event) town =
     Some (Inl (RuntimeError ''time-out''),
           town\<lparr>trace := [GetSpectator, GetBlueprintLibrary,
                           SpawnActor ''sensor.camera.rgb'' camera_transform (Some 2)]\<rparr>)"
  by (simp add: follow_defs prog_defs api_ok api_fault unreachable_def quiet_def town_def)

section \<open>Wildcard patterns\<close>

lemma wildcard_star_any: "wildcard_match ''*'' s"
  by (induction s) simp_all

lemma wildcard_literal_star:
  assumes "\<forall>c \<in> set lit. c \<noteq> CHR ''*'' \<and> c \<noteq> CHR ''?''"
  shows "wildcard_match (lit @ ''*'') s \<longleftrightarrow> prefix lit s"
  using assms
proof (induction lit arbitrary: s)
  case Nil
  show ?case by (simp add: wildcard_star_any)
next
  case (Cons p lit)
  then show ?case by (cases s) auto
qed


lemma wildcard_star_literal_star:
  assumes "\<forall>c \<in> set lit. c \<noteq> CHR ''*'' \<and> c \<noteq> CHR ''?''"
  shows "wildcard_match (CHR ''*'' # lit @ ''*'') s \<longleftrightarrow> sublist lit s"
proof (induction s)
  case Nil
  show ?case using wildcard_literal_star [OF assms, of "[]"] by simp
next
  case (Cons c cs)
  show ?case
    using wildcard_literal_star [OF assms, of "c # cs"] Cons.IH
    by (simp add: sublist_Cons_right)
qed

lemma wildcard_contains_vehicle:
  "wildcard_match ''*vehicle*'' s \<longleftrightarrow> sublist ''vehicle'' s"
  using wildcard_star_literal_star [of "''vehicle''" s] by simp




section \<open>Runs of set_autopilot\<close>

lemma quiet_between_first:
  "quiet_between E a (a + Suc k) \<Longrightarrow> fault E a = None \<and> quiet_between E (Suc a) (Suc a + k)"
  by (auto simp: quiet_between_def)

lemma switch_all:
  "foldl (\<lambda>as v. mark_autopilot (actor_id v) enable as) as0 ws =
     map (\<lambda>x. if actor_id x \<in> actor_id ` set ws then x\<lparr>autopilot := enable\<rparr> else x) as0"
proof (induction ws arbitrary: as0)
  case Nil
  show ?case by (simp add: map_idI)
next
  case (Cons w ws)
  show ?case
    by (simp add: Cons.IH) (auto simp: mark_autopilot_def)
qed

lemma autopilot_loop_run:
  assumes "k \<le> length ws"
    and "quiet_between E (length (trace s)) (length (trace s) + k)"
    and "k < length ws \<Longrightarrow> fault E (length (trace s) + k) = Some e"
  shows "autopilot_loop E enable ws s =
     ((if k < length ws then Inl e else Inr ()),
      s\<lparr>trace := trace s @ map (\<lambda>v. SetAutopilot (actor_id v) enable) (take (Suc k) ws),
        actors := foldl (\<lambda>as v. mark_autopilot (actor_id v) enable as) (actors s) (take k ws)\<rparr>)"
  using assms
proof (induction ws arbitrary: s k)
  case Nil
  then show ?case by (simp add: ret_def)
next
  case (Cons w ws)
  show ?case
  proof (cases k)
    case 0
    with Cons.prems have "fault E (length (trace s)) = Some e" by simp
    with 0 show ?thesis
      by (simp add: actor_set_autopilot_def api_fault bind_def)
  next
    case (Suc j)
    let ?s1 = "s\<lparr>trace := trace s @ [SetAutopilot (actor_id w) enable],
                  actors := mark_autopilot (actor_id w) enable (actors s)\<rparr>"
    from Cons.prems(2) Suc have f0: "fault E (length (trace s)) = None"
      and q: "quiet_between E (Suc (length (trace s))) (Suc (length (trace s)) + j)"
      using quiet_between_first [of E "length (trace s)" j] by simp_all
    have j: "j \<le> length ws" using Cons.prems(1) Suc by simp
    have q1: "quiet_between E (length (trace ?s1)) (length (trace ?s1) + j)"
      using q by simp
    have e1: "j < length ws \<Longrightarrow> fault E (length (trace ?s1) + j) = Some e"
      using Cons.prems(3) Suc by simp
    have step: "autopilot_loop E enable (w # ws) s = autopilot_loop E enable ws ?s1"
      by (simp add: actor_set_autopilot_def api_ok f0 bind_def)
    note rest = Cons.IH [OF j q1 e1]
    show ?thesis
      unfolding step using Suc by (simp add: rest)
  qed
qed

lemma vehicle_actors:
  "actor_filter ''*vehicle*'' as = filter (\<lambda>a. sublist ''vehicle'' (type_id a)) as"
  by (simp add: actor_filter_def wildcard_contains_vehicle)

lemma distinct_ids_member:
  assumes "distinct (map actor_id as)" and "set ws \<subseteq> set as" and "x \<in> set as"
  shows "actor_id x \<in> actor_id ` set ws \<longleftrightarrow> x \<in> set ws"
proof
  assume "actor_id x \<in> actor_id ` set ws"
  then obtain w where w: "w \<in> set ws" "actor_id x = actor_id w" by auto
  from assms(1) have "inj_on actor_id (set as)" by (simp add: distinct_map)
  with w assms(2,3) have "x = w" by (auto dest: inj_onD)
  with w show "x \<in> set ws" by simp
next
  assume "x \<in> set ws"
  then show "actor_id x \<in> actor_id ` set ws" by simp
qed

lemma set_autopilot_run:
  assumes k: "k \<le> length (actor_filter ''*vehicle*'' (actors s))"
    and q: "quiet_between E (length (trace s)) (Suc (length (trace s)) + k)"
    and failure: "k < length (actor_filter ''*vehicle*'' (actors s)) \<Longrightarrow>
                    fault E (Suc (length (trace s)) + k) = Some e \<and> is_Exception e"
  shows "set_autopilot E enable s =
     (Inr (),
      s\<lparr>trace := trace s @ GetActors #
            map (\<lambda>v. SetAutopilot (actor_id v) enable)
                (take (Suc k) (actor_filter ''*vehicle*'' (actors s))),
        actors := foldl (\<lambda>as v. mark_autopilot (actor_id v) enable as) (actors s)
                    (take k (actor_filter ''*vehicle*'' (actors s))),
        console := console s @
            (if k < length (actor_filter ''*vehicle*'' (actors s))
             then [ErrorSettingAutopilot e] else [])\<rparr>)"
proof -
  let ?vs = "actor_filter ''*vehicle*'' (actors s)"
  let ?s0 = "s\<lparr>trace := trace s @ [GetActors]\<rparr>"
  from q quiet_between_first [of E "length (trace s)" k]
  have f0: "fault E (length (trace s)) = None"
    and q0: "quiet_between E (length (trace ?s0)) (length (trace ?s0) + k)"
    by simp_all
  have e0: "k < length ?vs \<Longrightarrow> fault E (length (trace ?s0) + k) = Some e"
    using failure by simp
  note loop = autopilot_loop_run [of k ?vs E ?s0 e enable, OF k q0 e0]
  have start: "set_autopilot E enable s =
      except_Exception (autopilot_loop E enable ?vs) (\<lambda>e. print (ErrorSettingAutopilot e)) ?s0"
    by (simp add: set_autopilot_def get_actors_def api_ok f0 bind_def except_Exception_def)
  show ?thesis
  proof (cases "k < length ?vs")
    case True
    with failure have "is_Exception e" by simp
    with True show ?thesis
      unfolding start by (simp add: except_Exception_def loop print_def)
  next
    case False
    then show ?thesis
      unfolding start by (simp add: except_Exception_def loop)
  qed
qed

lemma set_autopilot_no_actors:
  assumes "fault E (length (trace s)) = Some e" and "is_Exception e"
  shows "set_autopilot E enable s =
     (Inr (), s\<lparr>trace := trace s @ [GetActors],
                console := console s @ [ErrorSettingAutopilot e]\<rparr>)"
  using assms
  by (simp add: set_autopilot_def get_actors_def api_fault bind_def except_Exception_def print_def)

lemma set_autopilot_no_escape:
  assumes "set_autopilot E enable s = (Inl e, s')"
  shows "\<not> is_Exception e"
proof (rule except_Exception_no_escape)
  show "except_Exception
       (bind (get_actors E) (\<lambda>as. autopilot_loop E enable (actor_filter ''*vehicle*'' as)))
       (\<lambda>e. print (ErrorSettingAutopilot e)) s = (Inl e, s')"
    using assms by (simp add: set_autopilot_def)
next
  fix e s
  show "\<exists>a s'. print (ErrorSettingAutopilot e) s = (Inr a, s')"
    by (simp add: print_def)
qed

text \<open>
  C8. \<^verbatim>\<open>set_autopilot\<close> takes the actors whose type id contains "vehicle", in the order
  of the actor list, and calls \<^verbatim>\<open>set_autopilot(enable)\<close> on each. If getting the actor
  list raises an Exception, no actor is touched and the cause is printed. If the first
  \<open>k\<close> of the calls on the vehicles return and the next one raises an Exception, the run
  stops there, prints the cause once and returns normally: the actors that carry the new
  flag are those with the id of one of the first \<open>k\<close> vehicles, and every other actor is
  as before. If all calls return, nothing is printed, and where the actor ids are
  pairwise distinct the actors that carry the new flag are exactly those whose type id
  contains "vehicle". No exception of class Exception leaves the function.
\<close>

theorem set_autopilot_in_order:
  "actor_filter ''*vehicle*'' (actors s) =
           filter (\<lambda>a. sublist ''vehicle'' (type_id a)) (actors s)
   \<and> (\<forall>e. fault E (length (trace s)) = Some e \<and> is_Exception e \<longrightarrow>
         set_autopilot E enable s =
           (Inr (), s\<lparr>trace := trace s @ [GetActors],
                      console := console s @ [ErrorSettingAutopilot e]\<rparr>))
   \<and> (\<forall>k e. k \<le> length (actor_filter ''*vehicle*'' (actors s)) \<and>
         quiet_between E (length (trace s)) (Suc (length (trace s)) + k) \<and>
         (k < length (actor_filter ''*vehicle*'' (actors s)) \<longrightarrow>
            fault E (Suc (length (trace s)) + k) = Some e \<and> is_Exception e) \<longrightarrow>
         set_autopilot E enable s =
           (Inr (),
            s\<lparr>trace := trace s @ GetActors #
                  map (\<lambda>v. SetAutopilot (actor_id v) enable)
                      (take (Suc k) (actor_filter ''*vehicle*'' (actors s))),
              actors := map (\<lambda>x. if actor_id x \<in> actor_id `
                                       set (take k (actor_filter ''*vehicle*'' (actors s)))
                                  then x\<lparr>autopilot := enable\<rparr> else x) (actors s),
              console := console s @
                  (if k < length (actor_filter ''*vehicle*'' (actors s))
                   then [ErrorSettingAutopilot e] else [])\<rparr>))
   \<and> (distinct (map actor_id (actors s)) \<and>
       quiet_between E (length (trace s))
          (Suc (length (trace s)) + length (actor_filter ''*vehicle*'' (actors s))) \<longrightarrow>
         actors (snd (set_autopilot E enable s)) =
           map (\<lambda>x. if sublist ''vehicle'' (type_id x) then x\<lparr>autopilot := enable\<rparr> else x)
               (actors s) \<and>
         console (snd (set_autopilot E enable s)) = console s)
   \<and> (\<forall>e s'. set_autopilot E enable s = (Inl e, s') \<longrightarrow> \<not> is_Exception e)"
proof -
  let ?vs = "actor_filter ''*vehicle*'' (actors s)"
  have partial: "set_autopilot E enable s =
           (Inr (),
            s\<lparr>trace := trace s @ GetActors #
                  map (\<lambda>v. SetAutopilot (actor_id v) enable) (take (Suc k) ?vs),
              actors := map (\<lambda>x. if actor_id x \<in> actor_id ` set (take k ?vs)
                                  then x\<lparr>autopilot := enable\<rparr> else x) (actors s),
              console := console s @
                  (if k < length ?vs then [ErrorSettingAutopilot e] else [])\<rparr>)"
    if "k \<le> length ?vs \<and>
         quiet_between E (length (trace s)) (Suc (length (trace s)) + k) \<and>
         (k < length ?vs \<longrightarrow> fault E (Suc (length (trace s)) + k) = Some e \<and> is_Exception e)"
    for k e
  proof -
    from that have k: "k \<le> length ?vs"
      and q: "quiet_between E (length (trace s)) (Suc (length (trace s)) + k)"
      and f: "k < length ?vs \<Longrightarrow> fault E (Suc (length (trace s)) + k) = Some e \<and> is_Exception e"
      by simp_all
    show ?thesis
      using set_autopilot_run [OF k q f, of enable] by (simp add: switch_all)
  qed
  have whole: "actors (snd (set_autopilot E enable s)) =
           map (\<lambda>x. if sublist ''vehicle'' (type_id x) then x\<lparr>autopilot := enable\<rparr> else x)
               (actors s) \<and>
         console (snd (set_autopilot E enable s)) = console s"
    if dq: "distinct (map actor_id (actors s)) \<and>
       quiet_between E (length (trace s)) (Suc (length (trace s)) + length ?vs)"
  proof -
    from dq have d: "distinct (map actor_id (actors s))"
      and q: "quiet_between E (length (trace s)) (Suc (length (trace s)) + length ?vs)"
      by simp_all
    have "set_autopilot E enable s =
           (Inr (),
            s\<lparr>trace := trace s @ GetActors #
                  map (\<lambda>v. SetAutopilot (actor_id v) enable) (take (Suc (length ?vs)) ?vs),
              actors := map (\<lambda>x. if actor_id x \<in> actor_id ` set (take (length ?vs) ?vs)
                                  then x\<lparr>autopilot := enable\<rparr> else x) (actors s),
              console := console s @
                  (if length ?vs < length ?vs then [ErrorSettingAutopilot undefined] else [])\<rparr>)"
      using q by (intro partial) simp
    moreover have "map (\<lambda>x. if actor_id x \<in> actor_id ` set ?vs
                                  then x\<lparr>autopilot := enable\<rparr> else x) (actors s) =
       map (\<lambda>x. if sublist ''vehicle'' (type_id x) then x\<lparr>autopilot := enable\<rparr> else x)
               (actors s)"
    proof (rule map_cong)
      fix x assume x: "x \<in> set (actors s)"
      have "actor_id x \<in> actor_id ` set ?vs \<longleftrightarrow> x \<in> set ?vs"
        by (rule distinct_ids_member [OF d _ x]) (simp add: vehicle_actors)
      with x show "(if actor_id x \<in> actor_id ` set ?vs then x\<lparr>autopilot := enable\<rparr> else x) =
         (if sublist ''vehicle'' (type_id x) then x\<lparr>autopilot := enable\<rparr> else x)"
        by (simp add: vehicle_actors)
    qed simp
    ultimately show ?thesis by simp
  qed
  show ?thesis
    using vehicle_actors [of "actors s"] set_autopilot_no_actors [of E s _ enable]
      partial whole set_autopilot_no_escape [of E enable s]
    by blast
qed

lemma town_vehicles:
  "actor_filter ''*vehicle*'' (actors town) =
     [\<lparr>actor_id = 2, type_id = ''vehicle.tesla.model3'', autopilot = False,
       parent = None, spawned_at = origin\<rparr>,
      \<lparr>actor_id = 4, type_id = ''vehicle.audi.tt'', autopilot = False,
       parent = None, spawned_at = origin\<lparr>loc_x := 10\<rparr>\<rparr>]"
  by (simp add: actor_filter_def town_def)

theorem set_autopilot_in_order_witness:
  "1 \<le> length (actor_filter ''*vehicle*'' (actors town))
   \<and> quiet_between unreachable (length (trace town)) (Suc (length (trace town)) + 1)
   \<and> fault unreachable (Suc (length (trace town)) + 1) = Some (RuntimeError ''time-out'')
   \<and> is_Exception (RuntimeError ''time-out'')
   \<and> fst (set_autopilot unreachable True town) = Inr ()
   \<and> map autopilot (actors (snd (set_autopilot unreachable True town))) =
         [False, True, False, False]
   \<and> console (snd (set_autopilot unreachable True town)) =
         [ErrorSettingAutopilot (RuntimeError ''time-out'')]"
proof -
  have k: "1 \<le> length (actor_filter ''*vehicle*'' (actors town))"
    by (simp add: town_vehicles)
  have q: "quiet_between unreachable (length (trace town)) (Suc (length (trace town)) + 1)"
    by (simp add: quiet_between_def unreachable_def town_def)
  have f: "fault unreachable (Suc (length (trace town)) + 1) = Some (RuntimeError ''time-out'')"
    by (simp add: unreachable_def town_def)
  have x: "is_Exception (RuntimeError ''time-out'')"
    by simp
  note t = set_autopilot_in_order [of town unreachable True, THEN conjunct2, THEN conjunct2,
      THEN conjunct1, rule_format, of 1 "RuntimeError ''time-out''"]
  have "set_autopilot unreachable True town =
           (Inr (),
            town\<lparr>trace := trace town @ GetActors #
                  map (\<lambda>v. SetAutopilot (actor_id v) True)
                      (take (Suc 1) (actor_filter ''*vehicle*'' (actors town))),
              actors := map (\<lambda>x. if actor_id x \<in> actor_id `
                                       set (take 1 (actor_filter ''*vehicle*'' (actors town)))
                                  then x\<lparr>autopilot := True\<rparr> else x) (actors town),
              console := console town @
                  (if 1 < length (actor_filter ''*vehicle*'' (actors town))
                   then [ErrorSettingAutopilot (RuntimeError ''time-out'')] else [])\<rparr>)"
    using k q f x by (intro t) simp
  then have "fst (set_autopilot unreachable True town) = Inr ()
   \<and> map autopilot (actors (snd (set_autopilot unreachable True town))) =
         [False, True, False, False]
   \<and> console (snd (set_autopilot unreachable True town)) =
         [ErrorSettingAutopilot (RuntimeError ''time-out'')]"
    by (simp add: town_vehicles) (simp add: town_def)
  with k q f x show ?thesis by blast
qed





lemma spawn_vehicles_fault0:
  assumes "fault E (length (trace s)) = Some e" and "is_Exception e"
  shows "spawn_vehicles E n vts s =
     (Inr (), s\<lparr>trace := trace s @ [GetBlueprintLibrary],
                console := console s @ [ErrorSpawningVehicles e]\<rparr>)"
  using assms by (simp add: spawn_many_defs prog_defs api_fault)

lemma spawn_vehicles_fault1:
  assumes "candidates (blueprints s) vts = Inr bps"
    and "fault E (length (trace s)) = None"
    and "fault E (Suc (length (trace s))) = Some e" and "is_Exception e"
  shows "spawn_vehicles E n vts s =
     (Inr (), s\<lparr>trace := trace s @ [GetBlueprintLibrary, GetMap],
                console := console s @ [ErrorSpawningVehicles e]\<rparr>)"
  using assms by (simp add: spawn_many_defs prog_defs api_ok api_fault)

lemma spawn_vehicles_fault2:
  assumes "candidates (blueprints s) vts = Inr bps"
    and "fault E (length (trace s)) = None"
    and "fault E (Suc (length (trace s))) = None"
    and "fault E (Suc (Suc (length (trace s)))) = Some e" and "is_Exception e"
  shows "spawn_vehicles E n vts s =
     (Inr (), s\<lparr>trace := trace s @ [GetBlueprintLibrary, GetMap, GetSpawnPoints],
                console := console s @ [ErrorSpawningVehicles e]\<rparr>)"
  using assms by (simp add: spawn_many_defs prog_defs api_ok api_fault)

lemma one_attempt:
  assumes calm: "no_interrupt E" and b: "bps \<noteq> []" and p: "pts \<noteq> []"
  shows "trace (after_attempt E bps pts s) =
           trace s @ [TrySpawnActor (bps ! (rand E (draws s) mod length bps))
                                    (pts ! (rand E (Suc (draws s)) mod length pts))]"
    and "draws (after_attempt E bps pts s) = Suc (Suc (draws s))"
    and "console (after_attempt E bps pts s) =
           console s @ (case fault E (length (trace s)) of None \<Rightarrow> []
                        | Some e \<Rightarrow> [ErrorSpawningVehicle e])"
    and "actors (after_attempt E bps pts s) =
           (if fault E (length (trace s)) = None \<and> \<not> blocked E (length (trace s))
            then actors s @ [\<lparr>actor_id = next_id s,
                   type_id = bps ! (rand E (draws s) mod length bps), autopilot = False,
                   parent = None,
                   spawned_at = pts ! (rand E (Suc (draws s)) mod length pts)\<rparr>]
            else actors s)"
  using b p no_interrupt_Exception [OF calm, of "length (trace s)"]
  by (simp_all add: after_attempt_def spawn_attempt_run Let_def add_actor_def
        split: option.splits)

lemma attempts_run:
  assumes calm: "no_interrupt E" and b: "bps \<noteq> []" and p: "pts \<noteq> []"
  shows "trace ((after_attempt E bps pts ^^ k) s) =
           trace s @ map (\<lambda>i. TrySpawnActor (bps ! (rand E (draws s + 2 * i) mod length bps))
                                 (pts ! (rand E (Suc (draws s + 2 * i)) mod length pts)))
                         [0..<k]
       \<and> draws ((after_attempt E bps pts ^^ k) s) = draws s + 2 * k
       \<and> console ((after_attempt E bps pts ^^ k) s) =
           console s @ concat (map (\<lambda>i. case fault E (length (trace s) + i) of None \<Rightarrow> []
                                         | Some e \<Rightarrow> [ErrorSpawningVehicle e]) [0..<k])
       \<and> prefix (actors s) (actors ((after_attempt E bps pts ^^ k) s))
       \<and> length (actors ((after_attempt E bps pts ^^ k) s)) =
           length (actors s) +
           length (filter (\<lambda>i. fault E (length (trace s) + i) = None \<and>
                                \<not> blocked E (length (trace s) + i)) [0..<k])"
proof (induction k)
  case 0
  show ?case by simp
next
  case (Suc k)
  let ?S = "(after_attempt E bps pts ^^ k) s"
  from Suc have t: "trace ?S =
           trace s @ map (\<lambda>i. TrySpawnActor (bps ! (rand E (draws s + 2 * i) mod length bps))
                                 (pts ! (rand E (Suc (draws s + 2 * i)) mod length pts)))
                         [0..<k]"
    and d: "draws ?S = draws s + 2 * k"
    and c: "console ?S =
           console s @ concat (map (\<lambda>i. case fault E (length (trace s) + i) of None \<Rightarrow> []
                                         | Some e \<Rightarrow> [ErrorSpawningVehicle e]) [0..<k])"
    and a: "prefix (actors s) (actors ?S)"
    and l: "length (actors ?S) =
           length (actors s) +
           length (filter (\<lambda>i. fault E (length (trace s) + i) = None \<and>
                                \<not> blocked E (length (trace s) + i)) [0..<k])"
    by simp_all
  have n: "length (trace ?S) = length (trace s) + k"
    by (simp add: t)
  have 1: "trace (after_attempt E bps pts ?S) =
           trace s @ map (\<lambda>i. TrySpawnActor (bps ! (rand E (draws s + 2 * i) mod length bps))
                                 (pts ! (rand E (Suc (draws s + 2 * i)) mod length pts)))
                         [0..<Suc k]"
    by (simp add: one_attempt(1) [OF calm b p] t d)
  have 2: "draws (after_attempt E bps pts ?S) = draws s + 2 * Suc k"
    by (simp add: one_attempt(2) [OF calm b p] d)
  have 3: "console (after_attempt E bps pts ?S) =
           console s @ concat (map (\<lambda>i. case fault E (length (trace s) + i) of None \<Rightarrow> []
                                         | Some e \<Rightarrow> [ErrorSpawningVehicle e]) [0..<Suc k])"
    by (simp add: one_attempt(3) [OF calm b p] c n)
  have 4: "prefix (actors s) (actors (after_attempt E bps pts ?S))"
    using a by (simp add: one_attempt(4) [OF calm b p])
  have 5: "length (actors (after_attempt E bps pts ?S)) =
           length (actors s) +
           length (filter (\<lambda>i. fault E (length (trace s) + i) = None \<and>
                                \<not> blocked E (length (trace s) + i)) [0..<Suc k])"
    by (simp add: one_attempt(4) [OF calm b p] l n)
  from 1 2 3 4 5 show ?case by simp
qed

lemma no_choice_attempts:
  assumes "bps = [] \<or> pts = []"
  shows "console ((after_attempt E bps pts ^^ k) s) =
     console s @ replicate k (ErrorSpawningVehicle IndexError) \<and>
   actors ((after_attempt E bps pts ^^ k) s) = actors s \<and>
   trace ((after_attempt E bps pts ^^ k) s) = trace s"
proof (induction k)
  case 0
  show ?case by simp
next
  case (Suc k)
  then show ?case
    using assms
    by (auto simp: after_attempt_def spawn_attempt_run replicate_append_same)
qed

text \<open>
  C4, amended. Let the candidates be resolved and no interrupt arrive, and let \<open>n\<close> be
  the count. If one of the three calls that precede the loop (the blueprint library, the
  map, its spawn points) raises, the outer handler prints that cause once and no spawn
  is attempted. If the three calls return, \<^verbatim>\<open>spawn_vehicles\<close> returns normally, and:
  with a candidate and a spawn point to choose from, exactly \<open>n\<close> lenient spawn requests
  are made, one per pass, each with a blueprint and a spawn point drawn afresh; the
  console gains one line for every request that raised, in order; the actors that were
  there stay, and one actor is added for every request that neither raised nor found its
  position occupied. With no candidate or no spawn point, no request is made, the actors
  are unchanged, and \<open>n\<close> lines are printed, each the IndexError of the empty choice.
\<close>

theorem spawn_vehicles_count_attempts:
  assumes calm: "no_interrupt E"
    and resolved: "candidates (blueprints s) vts = Inr bps"
  shows "(\<forall>j e. j < 3 \<and> quiet_between E (length (trace s)) (length (trace s) + j) \<and>
              fault E (length (trace s) + j) = Some e \<longrightarrow>
            spawn_vehicles E n vts s =
              (Inr (), s\<lparr>trace := trace s @
                               take (Suc j) [GetBlueprintLibrary, GetMap, GetSpawnPoints],
                         console := console s @ [ErrorSpawningVehicles e]\<rparr>))
       \<and> (quiet_between E (length (trace s)) (length (trace s) + 3) \<longrightarrow>
            fst (spawn_vehicles E n vts s) = Inr ()
          \<and> (bps \<noteq> [] \<and> spawn_points s \<noteq> [] \<longrightarrow>
               trace (snd (spawn_vehicles E n vts s)) =
                 trace s @ [GetBlueprintLibrary, GetMap, GetSpawnPoints] @
                 map (\<lambda>i. TrySpawnActor
                            (bps ! (rand E (draws s + 2 * i) mod length bps))
                            (spawn_points s !
                               (rand E (Suc (draws s + 2 * i)) mod length (spawn_points s))))
                     [0..<nat n]
             \<and> console (snd (spawn_vehicles E n vts s)) =
                 console s @
                 concat (map (\<lambda>i. case fault E (length (trace s) + 3 + i) of
                                      None \<Rightarrow> [] | Some e \<Rightarrow> [ErrorSpawningVehicle e])
                             [0..<nat n])
             \<and> prefix (actors s) (actors (snd (spawn_vehicles E n vts s)))
             \<and> length (actors (snd (spawn_vehicles E n vts s))) =
                 length (actors s) +
                 length (filter (\<lambda>i. fault E (length (trace s) + 3 + i) = None \<and>
                                      \<not> blocked E (length (trace s) + 3 + i)) [0..<nat n]))
          \<and> (bps = [] \<or> spawn_points s = [] \<longrightarrow>
               actors (snd (spawn_vehicles E n vts s)) = actors s \<and>
               trace (snd (spawn_vehicles E n vts s)) =
                 trace s @ [GetBlueprintLibrary, GetMap, GetSpawnPoints] \<and>
               console (snd (spawn_vehicles E n vts s)) =
                 console s @ replicate (nat n) (ErrorSpawningVehicle IndexError)))"
proof (intro conjI allI impI)
  fix j e
  assume a: "j < 3 \<and> quiet_between E (length (trace s)) (length (trace s) + j) \<and>
              fault E (length (trace s) + j) = Some e"
  then have x: "is_Exception e"
    using no_interrupt_Exception [OF calm] by blast
  from a have "j = 0 \<or> j = 1 \<or> j = 2" by auto
  then show "spawn_vehicles E n vts s =
              (Inr (), s\<lparr>trace := trace s @
                               take (Suc j) [GetBlueprintLibrary, GetMap, GetSpawnPoints],
                         console := console s @ [ErrorSpawningVehicles e]\<rparr>)"
  proof (elim disjE)
    assume "j = 0"
    with a x show ?thesis by (simp add: spawn_vehicles_fault0)
  next
    assume "j = 1"
    with a x show ?thesis
      by (simp add: spawn_vehicles_fault1 [OF resolved] quiet_between_def)
  next
    assume "j = 2"
    with a x have "fault E (length (trace s)) = None"
        "fault E (Suc (length (trace s))) = None"
        "fault E (Suc (Suc (length (trace s)))) = Some e"
      by (simp_all add: quiet_between_def)
    with x show ?thesis
      unfolding \<open>j = 2\<close> by (simp add: spawn_vehicles_fault2 [OF resolved] eval_nat_numeral)
  qed
next
  assume start: "quiet_between E (length (trace s)) (length (trace s) + 3)"
  then have q: "fault E (length (trace s)) = None"
      "fault E (Suc (length (trace s))) = None"
      "fault E (Suc (Suc (length (trace s)))) = None"
    by (simp_all add: quiet_between_def)
  let ?s0 = "s\<lparr>trace := trace s @ [GetBlueprintLibrary, GetMap, GetSpawnPoints]\<rparr>"
  have run: "spawn_vehicles E n vts s =
           (Inr (), (after_attempt E bps (spawn_points s) ^^ nat n) ?s0)"
    by (simp add: spawn_vehicles_resolved [OF resolved q] except_Exception_def
          spawn_loop_run [OF calm])
  show "fst (spawn_vehicles E n vts s) = Inr ()"
    by (simp add: run)
  {
    assume "bps \<noteq> [] \<and> spawn_points s \<noteq> []"
    then have b: "bps \<noteq> []" and p: "spawn_points s \<noteq> []" by simp_all
    note r = attempts_run [OF calm b p, of "nat n" ?s0]
    show "trace (snd (spawn_vehicles E n vts s)) =
                 trace s @ [GetBlueprintLibrary, GetMap, GetSpawnPoints] @
                 map (\<lambda>i. TrySpawnActor
                            (bps ! (rand E (draws s + 2 * i) mod length bps))
                            (spawn_points s !
                               (rand E (Suc (draws s + 2 * i)) mod length (spawn_points s))))
                     [0..<nat n]"
      using r by (simp add: run eval_nat_numeral)
    show "console (snd (spawn_vehicles E n vts s)) =
                 console s @
                 concat (map (\<lambda>i. case fault E (length (trace s) + 3 + i) of
                                      None \<Rightarrow> [] | Some e \<Rightarrow> [ErrorSpawningVehicle e])
                             [0..<nat n])"
      using r by (simp add: run eval_nat_numeral)
    show "prefix (actors s) (actors (snd (spawn_vehicles E n vts s)))"
      using r by (simp add: run eval_nat_numeral)
    show "length (actors (snd (spawn_vehicles E n vts s))) =
                 length (actors s) +
                 length (filter (\<lambda>i. fault E (length (trace s) + 3 + i) = None \<and>
                                      \<not> blocked E (length (trace s) + 3 + i)) [0..<nat n])"
      using r by (simp add: run eval_nat_numeral)
  }
  {
    assume e: "bps = [] \<or> spawn_points s = []"
    note r = no_choice_attempts [OF e, where E = E and k = "nat n" and s = ?s0]
    show "actors (snd (spawn_vehicles E n vts s)) = actors s"
      using r by (simp add: run)
    show "trace (snd (spawn_vehicles E n vts s)) =
                 trace s @ [GetBlueprintLibrary, GetMap, GetSpawnPoints]"
      using r by (simp add: run)
    show "console (snd (spawn_vehicles E n vts s)) =
                 console s @ replicate (nat n) (ErrorSpawningVehicle IndexError)"
      using r by (simp add: run)
  }
qed

lemma vehicles_of_town:
  "candidates (blueprints town) None = Inr [''vehicle.tesla.model3'']"
  by (simp add: candidates_def town_def bp_filter_def bp_matches_def)

lemma upt_3: "[0..<3] = [0, 1, 2::nat]"
  by (simp add: eval_nat_numeral)

lemma odd_draws:
  "Suc 0 mod Suc (Suc 0) = Suc 0" "Suc (Suc (Suc 0)) mod Suc (Suc 0) = Suc 0"
  "5 mod Suc (Suc 0) = Suc 0"
  by (simp_all add: eval_nat_numeral mod_Suc)

lemma flaky_calm: "no_interrupt flaky"
  by (simp add: no_interrupt_def flaky_def quiet_def)

theorem spawn_vehicles_count_attempts_witness:
  "no_interrupt flaky
   \<and> candidates (blueprints town) None = Inr [''vehicle.tesla.model3'']
   \<and> quiet_between flaky (length (trace town)) (length (trace town) + 3)
   \<and> [''vehicle.tesla.model3''] \<noteq> [] \<and> spawn_points town \<noteq> []
   \<and> fst (spawn_vehicles flaky 3 None town) = Inr ()
   \<and> trace (snd (spawn_vehicles flaky 3 None town)) =
        [GetBlueprintLibrary, GetMap, GetSpawnPoints,
         TrySpawnActor ''vehicle.tesla.model3'' (origin\<lparr>loc_x := 10\<rparr>),
         TrySpawnActor ''vehicle.tesla.model3'' (origin\<lparr>loc_x := 10\<rparr>),
         TrySpawnActor ''vehicle.tesla.model3'' (origin\<lparr>loc_x := 10\<rparr>)]
   \<and> console (snd (spawn_vehicles flaky 3 None town)) =
        [ErrorSpawningVehicle (RuntimeError ''time-out'')]
   \<and> length (actors (snd (spawn_vehicles flaky 3 None town))) = 5"
proof -
  have q: "quiet_between flaky (length (trace town)) (length (trace town) + 3)"
    by (simp add: quiet_between_def flaky_def quiet_def town_def)
  have b: "[''vehicle.tesla.model3''] \<noteq> [] \<and> spawn_points town \<noteq> []"
    by (simp add: town_def)
  note t = spawn_vehicles_count_attempts [OF flaky_calm vehicles_of_town, of 3,
      THEN conjunct2, rule_format, OF q]
  note u = t [THEN conjunct2, THEN conjunct1, rule_format, OF b]
  have 1: "fst (spawn_vehicles flaky 3 None town) = Inr ()"
    by (rule t [THEN conjunct1])
  have 2: "trace (snd (spawn_vehicles flaky 3 None town)) =
        [GetBlueprintLibrary, GetMap, GetSpawnPoints,
         TrySpawnActor ''vehicle.tesla.model3'' (origin\<lparr>loc_x := 10\<rparr>),
         TrySpawnActor ''vehicle.tesla.model3'' (origin\<lparr>loc_x := 10\<rparr>),
         TrySpawnActor ''vehicle.tesla.model3'' (origin\<lparr>loc_x := 10\<rparr>)]"
    unfolding u [THEN conjunct1]
    by (simp add: upt_3 nat_numeral) (simp add: town_def flaky_def quiet_def odd_draws)
  have 3: "console (snd (spawn_vehicles flaky 3 None town)) =
        [ErrorSpawningVehicle (RuntimeError ''time-out'')]"
    unfolding u [THEN conjunct2, THEN conjunct1]
    by (simp add: upt_3 nat_numeral) (simp add: town_def flaky_def quiet_def odd_draws)
  have 4: "length (actors (snd (spawn_vehicles flaky 3 None town))) = 5"
    unfolding u [THEN conjunct2, THEN conjunct2, THEN conjunct2]
    by (simp add: upt_3 nat_numeral) (simp add: town_def flaky_def quiet_def odd_draws)
  from flaky_calm vehicles_of_town q b 1 2 3 4 show ?thesis by blast
qed

text \<open>
  C4 as stated fails: on the town, whose library resolves the candidates, a call for five
  vehicles during which fetching the spawn points times out makes no spawn request at
  all; the outer handler prints the cause once.
\<close>

theorem spawn_vehicles_no_map_counterexample:
  "candidates (blueprints town) None = Inr [''vehicle.tesla.model3'']
   \<and> spawn_points town \<noteq> []
   \<and> spawn_vehicles unreachable 5 None town =
        (Inr (), town\<lparr>trace := [GetBlueprintLibrary, GetMap, GetSpawnPoints],
                       console := [ErrorSpawningVehicles (RuntimeError ''time-out'')]\<rparr>)"
proof -
  have "spawn_vehicles unreachable 5 None town =
     (Inr (), town\<lparr>trace := trace town @ [GetBlueprintLibrary, GetMap, GetSpawnPoints],
                console := console town @ [ErrorSpawningVehicles (RuntimeError ''time-out'')]\<rparr>)"
    by (rule spawn_vehicles_fault2 [OF vehicles_of_town])
       (simp_all add: unreachable_def quiet_def town_def)
  then show ?thesis
    by (simp add: vehicles_of_town) (simp add: town_def)
qed

section \<open>The camera loop\<close>

lemmas iteration_defs = follow_iteration_def is_set_def get_transform_def set_transform_def
  sleep_def

lemma follow_iteration_stop:
  assumes "fault E (length (trace s)) = None" and "stop_set E (length (trace s))"
  shows "follow_iteration E sp camera (Some ev) s = (Inr Break, s\<lparr>trace := trace s @ [IsSet]\<rparr>)"
  using assms by (simp add: iteration_defs prog_defs api_ok)

lemma follow_iteration_go:
  assumes "fault E (length (trace s)) = None" and "\<not> stop_set E (length (trace s))"
    and "fault E (Suc (length (trace s))) = None"
    and "fault E (Suc (Suc (length (trace s)))) = None"
    and "fault E (Suc (Suc (Suc (length (trace s))))) = None"
  shows "follow_iteration E sp camera (Some ev) s =
     (Inr Continue,
      s\<lparr>trace := trace s @ [IsSet, GetTransform camera,
                              SetTransform sp (pose_at E (Suc (length (trace s))) camera),
                              Sleep poll_interval],
        spectator_pose := (if sp = spectator s
                           then pose_at E (Suc (length (trace s))) camera
                           else spectator_pose s)\<rparr>)"
  using assms by (simp add: iteration_defs prog_defs api_ok)



lemma upt_shift: "[0..<Suc k] = 0 # map Suc [0..<k]"
  by (simp add: upt_conv_Cons map_Suc_upt del: upt_Suc)

lemma follow_loop_until_set:
  assumes "n = length (trace s)"
    and "quiet_between E n (n + 4 * k + 1)"
    and "\<forall>i<k. \<not> stop_set E (n + 4 * i)"
    and "stop_set E (n + 4 * k)"
  shows "follow_loop fuel E sp camera (Some ev) s =
     (if fuel \<le> k then None
      else Some (Inr (),
        s\<lparr>trace := trace s @
                concat (map (\<lambda>i. [IsSet, GetTransform camera,
                                   SetTransform sp (pose_at E (Suc (n + 4 * i)) camera),
                                   Sleep poll_interval]) [0..<k]) @ [IsSet],
          spectator_pose :=
            (if sp = spectator s
             then last (spectator_pose s # map (\<lambda>i. pose_at E (Suc (n + 4 * i)) camera) [0..<k])
             else spectator_pose s)\<rparr>))"
  using assms
proof (induction k arbitrary: s fuel n)
  case 0
  show ?case
  proof (cases fuel)
    case 0
    then show ?thesis by simp
  next
    case (Suc f)
    from 0 have "fault E (length (trace s)) = None" "stop_set E (length (trace s))"
      by (simp_all add: quiet_between_def)
    then show ?thesis
      unfolding Suc by (simp add: follow_iteration_stop)
  qed
next
  case (Suc k)
  show ?case
  proof (cases fuel)
    case 0
    then show ?thesis by simp
  next
    case f: (Suc f)
    let ?tf = "pose_at E (Suc (length (trace s))) camera"
    let ?s' = "s\<lparr>trace := trace s @ [IsSet, GetTransform camera, SetTransform sp ?tf,
                              Sleep poll_interval],
        spectator_pose := (if sp = spectator s then ?tf else spectator_pose s)\<rparr>"
    from Suc.prems have q: "fault E (length (trace s)) = None"
        "fault E (Suc (length (trace s))) = None"
        "fault E (Suc (Suc (length (trace s)))) = None"
        "fault E (Suc (Suc (Suc (length (trace s))))) = None"
      by (simp_all add: quiet_between_def)
    from Suc.prems have u: "\<not> stop_set E (length (trace s))"
      by auto
    have step: "follow_iteration E sp camera (Some ev) s = (Inr Continue, ?s')"
      using q u by (simp add: follow_iteration_go)
    have n': "n + 4 = length (trace ?s')"
      using Suc.prems(1) by simp
    have q': "quiet_between E (n + 4) (n + 4 + 4 * k + 1)"
      using Suc.prems(2) by (simp add: quiet_between_def)
    have u': "\<forall>i<k. \<not> stop_set E (n + 4 + 4 * i)"
    proof (intro allI impI)
      fix i assume "i < k"
      then have "Suc i < Suc k" by simp
      with Suc.prems(3) have "\<not> stop_set E (n + 4 * Suc i)" by blast
      then show "\<not> stop_set E (n + 4 + 4 * i)" by (simp add: add.assoc)
    qed
    have t': "stop_set E (n + 4 + 4 * k)"
      using Suc.prems(4) by (simp add: add.assoc)
    note ih = Suc.IH [OF n' q' u' t', of f]
    have "follow_loop fuel E sp camera (Some ev) s = follow_loop f E sp camera (Some ev) ?s'"
      unfolding f by (simp add: step)
    also note ih
    finally show ?thesis
      unfolding f using Suc.prems(1)
      by (simp add: upt_shift comp_def add.assoc del: upt_Suc)
  qed
qed

lemma follow_setup_run:
  assumes "''sensor.camera.rgb'' \<in> set (blueprints s)"
    and "\<not> blocked E (Suc (Suc (length (trace s))))"
    and "fault E (length (trace s)) = None"
    and "fault E (Suc (length (trace s))) = None"
    and "fault E (Suc (Suc (length (trace s)))) = None"
    and "fault E (Suc (Suc (Suc (length (trace s))))) = None"
    and "fault E (Suc (Suc (Suc (Suc (length (trace s)))))) = None"
  shows "follow_setup E vehicle s =
     (Inr (spectator s, next_id s),
      s\<lparr>trace := trace s @
           [GetSpectator, GetBlueprintLibrary,
            SpawnActor ''sensor.camera.rgb'' camera_transform (Some vehicle),
            GetTransform (next_id s),
            SetTransform (spectator s)
              (pose_at E (Suc (Suc (Suc (length (trace s))))) (next_id s))],
        actors := actors s @
           [\<lparr>actor_id = next_id s, type_id = ''sensor.camera.rgb'', autopilot = False,
             parent = Some vehicle, spawned_at = camera_transform\<rparr>],
        next_id := Suc (next_id s),
        spectator_pose := pose_at E (Suc (Suc (Suc (length (trace s))))) (next_id s)\<rparr>)"
  using assms
  by (simp add: follow_setup_def get_spectator_def get_blueprint_library_def find_blueprint_def
        spawn_actor_def get_transform_def set_transform_def prog_defs api_ok add_actor_def)

lemma follow_vehicle_until_set:
  assumes found: "''sensor.camera.rgb'' \<in> set (blueprints s)"
    and free: "\<not> blocked E (length (trace s) + 2)"
    and running: "quiet_between E (length (trace s)) (length (trace s) + 5 + 4 * k + 1)"
    and unset: "\<forall>i<k. \<not> stop_set E (length (trace s) + 5 + 4 * i)"
    and reached: "stop_set E (length (trace s) + 5 + 4 * k)"
  shows "follow_vehicle fuel E vehicle (Some ev) s =
     (if fuel \<le> k then None
      else Some (Inr (),
        s\<lparr>trace := trace s @
             [GetSpectator, GetBlueprintLibrary,
              SpawnActor ''sensor.camera.rgb'' camera_transform (Some vehicle),
              GetTransform (next_id s),
              SetTransform (spectator s) (pose_at E (length (trace s) + 3) (next_id s))] @
             concat (map (\<lambda>i. [IsSet, GetTransform (next_id s),
                    SetTransform (spectator s)
                      (pose_at E (length (trace s) + 5 + 4 * i + 1) (next_id s)),
                    Sleep poll_interval]) [0..<k]) @ [IsSet],
          actors := actors s @
             [\<lparr>actor_id = next_id s, type_id = ''sensor.camera.rgb'', autopilot = False,
               parent = Some vehicle, spawned_at = camera_transform\<rparr>],
          next_id := Suc (next_id s),
          spectator_pose :=
             last (pose_at E (length (trace s) + 3) (next_id s) #
                   map (\<lambda>i. pose_at E (length (trace s) + 5 + 4 * i + 1) (next_id s))
                       [0..<k])\<rparr>))"
proof -
  let ?n = "length (trace s)"
  let ?s1 = "s\<lparr>trace := trace s @
           [GetSpectator, GetBlueprintLibrary,
            SpawnActor ''sensor.camera.rgb'' camera_transform (Some vehicle),
            GetTransform (next_id s),
            SetTransform (spectator s) (pose_at E (Suc (Suc (Suc ?n))) (next_id s))],
        actors := actors s @
           [\<lparr>actor_id = next_id s, type_id = ''sensor.camera.rgb'', autopilot = False,
             parent = Some vehicle, spawned_at = camera_transform\<rparr>],
        next_id := Suc (next_id s),
        spectator_pose := pose_at E (Suc (Suc (Suc ?n))) (next_id s)\<rparr>"
  from running have q: "fault E ?n = None" "fault E (Suc ?n) = None"
      "fault E (Suc (Suc ?n)) = None" "fault E (Suc (Suc (Suc ?n))) = None"
      "fault E (Suc (Suc (Suc (Suc ?n)))) = None"
    by (simp_all add: quiet_between_def)
  from free have b: "\<not> blocked E (Suc (Suc ?n))" by simp
  have start: "follow_setup E vehicle s = (Inr (spectator s, next_id s), ?s1)"
    by (rule follow_setup_run [OF found b q])
  have n1: "?n + 5 = length (trace ?s1)" by simp
  have q1: "quiet_between E (?n + 5) (?n + 5 + 4 * k + 1)"
    using running by (simp add: quiet_between_def)
  note loop = follow_loop_until_set [OF n1 q1 unset reached, of fuel "spectator s" "next_id s" ev]
  show ?thesis
  proof (cases "fuel \<le> k")
    case True
    then show ?thesis
      by (simp add: follow_vehicle_def start loop)
  next
    case False
    then show ?thesis
      by (simp add: follow_vehicle_def start loop except_Exception_def eval_nat_numeral)
  qed
qed

lemma follow_iteration_check_fault:
  assumes "fault E (length (trace s)) = Some e"
  shows "follow_iteration E sp camera (Some ev) s =
     (if e = KeyboardInterrupt
      then (Inr Break, s\<lparr>trace := trace s @ [IsSet],
                         console := console s @ [CameraFollowInterrupted]\<rparr>)
      else (Inl e, s\<lparr>trace := trace s @ [IsSet]\<rparr>))"
  using assms by (simp add: iteration_defs prog_defs api_fault)

lemma follow_loop_check_set:
  assumes "stop_set E (length (trace s))"
  shows "follow_loop (Suc fuel) E sp camera (Some ev) s =
     (case fault E (length (trace s)) of
        None \<Rightarrow> Some (Inr (), s\<lparr>trace := trace s @ [IsSet]\<rparr>)
      | Some e \<Rightarrow>
          if e = KeyboardInterrupt
          then Some (Inr (), s\<lparr>trace := trace s @ [IsSet],
                               console := console s @ [CameraFollowInterrupted]\<rparr>)
          else Some (Inl e, s\<lparr>trace := trace s @ [IsSet]\<rparr>))"
proof (cases "fault E (length (trace s))")
  case None
  with assms show ?thesis by (simp add: follow_iteration_stop)
next
  case (Some e)
  then show ?thesis by (simp add: follow_iteration_check_fault)
qed

lemma follow_iteration_one_check:
  "\<exists>cs. trace (snd (follow_iteration E sp camera (Some ev) s)) = trace s @ IsSet # cs \<and>
        IsSet \<notin> set cs"
  by (simp add: iteration_defs prog_defs api_def Let_def split: option.splits)







text \<open>
  C1. Let the setup of \<^verbatim>\<open>follow_vehicle\<close> succeed and no call raise, and let the stop
  event read unset at the first \<open>k\<close> checks at the top of the loop and set at the next
  one. Then the call returns normally, exactly when the fuel covers these \<open>k + 1\<close>
  passes, and nothing is printed. The calls made after the setup are \<open>k\<close> rounds of: one
  \<^verbatim>\<open>is_set\<close>, one \<^verbatim>\<open>camera.get_transform\<close>, one \<^verbatim>\<open>spectator.set_transform\<close> with the
  pose just read, one \<^verbatim>\<open>time.sleep(0.01)\<close>; then the one \<^verbatim>\<open>is_set\<close> that reads set, after
  which no pose is copied. The spectator is left at the pose read last.
  In any state at the top of the loop, a check that finds the event set ends the loop
  with that check as its only call. Every pass through the loop body, whatever its
  outcome, consults the event exactly once, as its first call.
\<close>

theorem follow_vehicle_stops_at_next_check:
  "(''sensor.camera.rgb'' \<in> set (blueprints s) \<and>
    \<not> blocked E (length (trace s) + 2) \<and>
    quiet_between E (length (trace s)) (length (trace s) + 5 + 4 * k + 1) \<and>
    (\<forall>i<k. \<not> stop_set E (length (trace s) + 5 + 4 * i)) \<and>
    stop_set E (length (trace s) + 5 + 4 * k) \<longrightarrow>
    follow_vehicle fuel E vehicle (Some ev) s =
     (if fuel \<le> k then None
      else Some (Inr (),
        s\<lparr>trace := trace s @
             [GetSpectator, GetBlueprintLibrary,
              SpawnActor ''sensor.camera.rgb'' camera_transform (Some vehicle),
              GetTransform (next_id s),
              SetTransform (spectator s) (pose_at E (length (trace s) + 3) (next_id s))] @
             concat (map (\<lambda>i. [IsSet, GetTransform (next_id s),
                    SetTransform (spectator s)
                      (pose_at E (length (trace s) + 5 + 4 * i + 1) (next_id s)),
                    Sleep (1 / 100)]) [0..<k]) @ [IsSet],
          actors := actors s @
             [\<lparr>actor_id = next_id s, type_id = ''sensor.camera.rgb'', autopilot = False,
               parent = Some vehicle, spawned_at = camera_transform\<rparr>],
          next_id := Suc (next_id s),
          spectator_pose :=
             last (pose_at E (length (trace s) + 3) (next_id s) #
                   map (\<lambda>i. pose_at E (length (trace s) + 5 + 4 * i + 1) (next_id s))
                       [0..<k])\<rparr>)))
   \<and> (\<forall>t sp camera. stop_set E (length (trace t)) \<longrightarrow>
         follow_loop (Suc fuel) E sp camera (Some ev) t =
           (case fault E (length (trace t)) of
              None \<Rightarrow> Some (Inr (), t\<lparr>trace := trace t @ [IsSet]\<rparr>)
            | Some e \<Rightarrow>
                if e = KeyboardInterrupt
                then Some (Inr (), t\<lparr>trace := trace t @ [IsSet],
                                     console := console t @ [CameraFollowInterrupted]\<rparr>)
                else Some (Inl e, t\<lparr>trace := trace t @ [IsSet]\<rparr>)))
   \<and> (\<forall>t sp camera. \<exists>cs.
         trace (snd (follow_iteration E sp camera (Some ev) t)) = trace t @ IsSet # cs \<and>
         IsSet \<notin> set cs)"
proof (intro conjI allI impI)
  assume a: "''sensor.camera.rgb'' \<in> set (blueprints s) \<and>
    \<not> blocked E (length (trace s) + 2) \<and>
    quiet_between E (length (trace s)) (length (trace s) + 5 + 4 * k + 1) \<and>
    (\<forall>i<k. \<not> stop_set E (length (trace s) + 5 + 4 * i)) \<and>
    stop_set E (length (trace s) + 5 + 4 * k)"
  then have found: "''sensor.camera.rgb'' \<in> set (blueprints s)"
    and free: "\<not> blocked E (length (trace s) + 2)"
    and running: "quiet_between E (length (trace s)) (length (trace s) + 5 + 4 * k + 1)"
    and unset: "\<forall>i<k. \<not> stop_set E (length (trace s) + 5 + 4 * i)"
    and reached: "stop_set E (length (trace s) + 5 + 4 * k)"
    by simp_all
  show "follow_vehicle fuel E vehicle (Some ev) s =
     (if fuel \<le> k then None
      else Some (Inr (),
        s\<lparr>trace := trace s @
             [GetSpectator, GetBlueprintLibrary,
              SpawnActor ''sensor.camera.rgb'' camera_transform (Some vehicle),
              GetTransform (next_id s),
              SetTransform (spectator s) (pose_at E (length (trace s) + 3) (next_id s))] @
             concat (map (\<lambda>i. [IsSet, GetTransform (next_id s),
                    SetTransform (spectator s)
                      (pose_at E (length (trace s) + 5 + 4 * i + 1) (next_id s)),
                    Sleep (1 / 100)]) [0..<k]) @ [IsSet],
          actors := actors s @
             [\<lparr>actor_id = next_id s, type_id = ''sensor.camera.rgb'', autopilot = False,
               parent = Some vehicle, spawned_at = camera_transform\<rparr>],
          next_id := Suc (next_id s),
          spectator_pose :=
             last (pose_at E (length (trace s) + 3) (next_id s) #
                   map (\<lambda>i. pose_at E (length (trace s) + 5 + 4 * i + 1) (next_id s))
                       [0..<k])\<rparr>))"
    unfolding follow_vehicle_until_set [OF found free running unset reached]
    by (simp add: poll_interval_def)
next
  fix t :: sim and sp camera
  assume "stop_set E (length (trace t))"
  then show "follow_loop (Suc fuel) E sp camera (Some ev) t =
           (case fault E (length (trace t)) of
              None \<Rightarrow> Some (Inr (), t\<lparr>trace := trace t @ [IsSet]\<rparr>)
            | Some e \<Rightarrow>
                if e = KeyboardInterrupt
                then Some (Inr (), t\<lparr>trace := trace t @ [IsSet],
                                     console := console t @ [CameraFollowInterrupted]\<rparr>)
                else Some (Inl e, t\<lparr>trace := trace t @ [IsSet]\<rparr>))"
    by (rule follow_loop_check_set)
next
  fix t :: sim and sp camera
  show "\<exists>cs. trace (snd (follow_iteration E sp camera (Some ev) t)) = trace t @ IsSet # cs \<and>
         IsSet \<notin> set cs"
    by (rule follow_iteration_one_check)
qed

lemma upt_2: "[0..<2] = [0, 1::nat]"
  by (simp add: eval_nat_numeral)

theorem follow_vehicle_stops_at_next_check_witness:
  "''sensor.camera.rgb'' \<in> set (blueprints town)
   \<and> \<not> blocked halting (length (trace town) + 2)
   \<and> quiet_between halting (length (trace town)) (length (trace town) + 5 + 4 * 2 + 1)
   \<and> \<not> stop_set halting (length (trace town) + 5 + 4 * 0)
   \<and> \<not> stop_set halting (length (trace town) + 5 + 4 * 1)
   \<and> stop_set halting (length (trace town) + 5 + 4 * 2)
   \<and> follow_vehicle 2 halting 2 (Some Event) town = None
   \<and> follow_vehicle 3 halting 2 (Some Event) town =
       Some (Inr (),
         town\<lparr>trace :=
             [GetSpectator, GetBlueprintLibrary,
              SpawnActor ''sensor.camera.rgb'' camera_transform (Some 2),
              GetTransform 5, SetTransform 1 (camera_transform\<lparr>loc_x := 3\<rparr>),
              IsSet, GetTransform 5, SetTransform 1 (camera_transform\<lparr>loc_x := 6\<rparr>),
              Sleep (1 / 100),
              IsSet, GetTransform 5, SetTransform 1 (camera_transform\<lparr>loc_x := 10\<rparr>),
              Sleep (1 / 100),
              IsSet],
           actors := actors town @
             [\<lparr>actor_id = 5, type_id = ''sensor.camera.rgb'', autopilot = False,
               parent = Some 2, spawned_at = camera_transform\<rparr>],
           next_id := 6,
           spectator_pose := camera_transform\<lparr>loc_x := 10\<rparr>\<rparr>)"
proof -
  have found: "''sensor.camera.rgb'' \<in> set (blueprints town)"
    by (simp add: town_def)
  have free: "\<not> blocked halting (length (trace town) + 2)"
    by (simp add: halting_def quiet_def)
  have running: "quiet_between halting (length (trace town)) (length (trace town) + 5 + 4 * 2 + 1)"
    by (simp add: quiet_between_def halting_def quiet_def)
  have u0: "\<not> stop_set halting (length (trace town) + 5 + 4 * 0)"
    and u1: "\<not> stop_set halting (length (trace town) + 5 + 4 * 1)"
    by (simp_all add: halting_def quiet_def town_def)
  have unset: "\<forall>i<2. \<not> stop_set halting (length (trace town) + 5 + 4 * i)"
    by (simp add: halting_def quiet_def town_def)
  have reached: "stop_set halting (length (trace town) + 5 + 4 * 2)"
    by (simp add: halting_def quiet_def town_def)
  note t = follow_vehicle_stops_at_next_check [of town halting 2, THEN conjunct1, rule_format,
      OF conjI [OF found conjI [OF free conjI [OF running conjI [OF unset reached]]]]]
  have none: "follow_vehicle 2 halting 2 (Some Event) town = None"
    unfolding t by simp
  have some: "follow_vehicle 3 halting 2 (Some Event) town =
       Some (Inr (),
         town\<lparr>trace :=
             [GetSpectator, GetBlueprintLibrary,
              SpawnActor ''sensor.camera.rgb'' camera_transform (Some 2),
              GetTransform 5, SetTransform 1 (camera_transform\<lparr>loc_x := 3\<rparr>),
              IsSet, GetTransform 5, SetTransform 1 (camera_transform\<lparr>loc_x := 6\<rparr>),
              Sleep (1 / 100),
              IsSet, GetTransform 5, SetTransform 1 (camera_transform\<lparr>loc_x := 10\<rparr>),
              Sleep (1 / 100),
              IsSet],
           actors := actors town @
             [\<lparr>actor_id = 5, type_id = ''sensor.camera.rgb'', autopilot = False,
               parent = Some 2, spawned_at = camera_transform\<rparr>],
           next_id := 6,
           spectator_pose := camera_transform\<lparr>loc_x := 10\<rparr>\<rparr>)"
    unfolding t by (simp add: upt_2) (simp add: town_def halting_def quiet_def)
  from found free running u0 u1 reached none some show ?thesis by blast
qed






section \<open>The candidates of spawn_vehicles\<close>













end
